theory Spec2Isabelle
  imports Main "HOL-Library.Word"
begin

section \<open>Data model of \<^verbatim>\<open>url.hpp\<close>\<close>

text \<open>
  The three exceptions the class can raise: \<^verbatim>\<open>Url::parse_error\<close>,
  \<^verbatim>\<open>Url::build_error\<close> and \<^verbatim>\<open>std::out_of_range\<close>, each with its message.
\<close>

datatype error = parse_error string | build_error string | out_of_range string

text \<open>\<^verbatim>\<open>class KeyVal\<close>: two strings, both empty after default construction.\<close>

record KeyVal =
  m_key :: string
  m_val :: string

text \<open>
  \<^verbatim>\<open>class Url\<close>: the private members in the order of the header. \<^verbatim>\<open>m_ip_v\<close>
  is an \<^verbatim>\<open>int8_t\<close> that only ever holds -1, 0, 4 or 6; no arithmetic is done on it.
\<close>

record Url =
  m_scheme :: string
  m_user :: string
  m_host :: string
  m_port :: string
  m_path :: string
  m_query :: "KeyVal list"
  m_fragment :: string
  m_url :: string
  m_parse :: bool
  m_built :: bool
  m_ip_v :: int

subsection \<open>KeyVal\<close>

text \<open>\<^verbatim>\<open>KeyVal() {}\<close>: both strings are default-constructed.\<close>

definition KeyVal_default :: KeyVal where
  "KeyVal_default = \<lparr>m_key = [], m_val = []\<rparr>"

text \<open>\<^verbatim>\<open>KeyVal(const std::string& key, const std::string& val)\<close>\<close>

definition KeyVal_kv :: "string \<Rightarrow> string \<Rightarrow> KeyVal" where
  "KeyVal_kv k v = \<lparr>m_key = k, m_val = v\<rparr>"

text \<open>\<^verbatim>\<open>KeyVal(const std::string& key)\<close> initialises \<^verbatim>\<open>m_key\<close> only; \<^verbatim>\<open>m_val\<close> is
  default-constructed, the empty string.\<close>

definition KeyVal_k :: "string \<Rightarrow> KeyVal" where
  "KeyVal_k k = \<lparr>m_key = k, m_val = []\<rparr>"

text \<open>\<^verbatim>\<open>KeyVal::operator==\<close>\<close>

definition KeyVal_eq :: "KeyVal \<Rightarrow> KeyVal \<Rightarrow> bool" where
  "KeyVal_eq p q \<longleftrightarrow> m_key p = m_key q \<and> m_val p = m_val q"

text \<open>\<^verbatim>\<open>const std::string& key() const { return m_key; }\<close>\<close>

definition key :: "KeyVal \<Rightarrow> string" where
  "key p = m_key p"

text \<open>\<^verbatim>\<open>const std::string& val() const { return m_val; }\<close>\<close>

definition val :: "KeyVal \<Rightarrow> string" where
  "val p = m_val p"

text \<open>\<^verbatim>\<open>void key(const std::string& k) { m_key = k; }\<close>\<close>

definition set_key :: "string \<Rightarrow> KeyVal \<Rightarrow> KeyVal" where
  "set_key k p = p\<lparr>m_key := k\<rparr>"

text \<open>\<^verbatim>\<open>void val(const std::string& v) { m_val = v; }\<close>\<close>

definition set_val :: "string \<Rightarrow> KeyVal \<Rightarrow> KeyVal" where
  "set_val v p = p\<lparr>m_val := v\<rparr>"

subsection \<open>Constructors and assignment from a string\<close>

text \<open>\<^verbatim>\<open>Url()\<close>: \<^verbatim>\<open>m_parse(true), m_built(true), m_ip_v(-1)\<close>, every string and the
  query empty.\<close>

definition Url_default :: Url where
  "Url_default = \<lparr>m_scheme = [], m_user = [], m_host = [], m_port = [], m_path = [],
     m_query = [], m_fragment = [], m_url = [], m_parse = True, m_built = True,
     m_ip_v = - 1\<rparr>"

text \<open>\<^verbatim>\<open>Url(const std::string& url_str)\<close>:
  \<^verbatim>\<open>m_url(url_str), m_parse(false), m_built(false), m_ip_v(-1)\<close>.\<close>

definition Url_string :: "string \<Rightarrow> Url" where
  "Url_string url_str = \<lparr>m_scheme = [], m_user = [], m_host = [], m_port = [], m_path = [],
     m_query = [], m_fragment = [], m_url = url_str, m_parse = False, m_built = False,
     m_ip_v = - 1\<rparr>"

text \<open>\<^verbatim>\<open>Url& parse(const std::string& url_str)\<close>, which \<^verbatim>\<open>operator=(const std::string&)\<close>
  forwards to: \<^verbatim>\<open>m_url = url_str; m_built = true; m_parse = false;\<close>. The field members are
  not touched.\<close>

definition parse :: "string \<Rightarrow> Url \<Rightarrow> Url" where
  "parse url_str u = u\<lparr>m_url := url_str, m_built := True, m_parse := False\<rparr>"

text \<open>\<^verbatim>\<open>Url& operator=(const std::string& url_str) { return parse(url_str); }\<close>\<close>

definition assign_string :: "string \<Rightarrow> Url \<Rightarrow> Url" where
  "assign_string url_str u = parse url_str u"

subsection \<open>\<^verbatim>\<open>std::to_string\<close> on unsigned values\<close>

text \<open>The decimal digit of a value below ten, as \<^verbatim>\<open>std::to_string\<close> prints it.\<close>

definition digit_char :: "nat \<Rightarrow> char" where
  "digit_char d = char_of (48 + d)"

text \<open>\<^verbatim>\<open>std::to_string\<close> on an unsigned value: its decimal digits, most significant first, no leading zero.\<close>

function to_string :: "nat \<Rightarrow> string" where
  "to_string n = (if n < 10 then [digit_char n] else to_string (n div 10) @ [digit_char (n mod 10)])"
  by pat_completeness auto
termination
  by (relation "measure id") auto

declare to_string.simps [simp del]

section \<open>Parser, builder and codec\<close>

text \<open>
  The header declares \<^verbatim>\<open>parse_url\<close>, \<^verbatim>\<open>build_url\<close> and the field setters, and
  defines none of them. Their behaviour is taken from the specification (sections 4.1 to
  4.4); every definition of this section is marked accordingly.
\<close>

subsection \<open>Character classes\<close>

text \<open>Modelled from the spec: the character classes ALPHA, DIGIT and hex digit that
  sections 4.2 and 4.4 use (the functions of the implementation file are missing).\<close>

definition is_digit :: "char \<Rightarrow> bool" where
  "is_digit c \<longleftrightarrow> 48 \<le> (of_char c :: nat) \<and> (of_char c :: nat) \<le> 57"

text \<open>Modelled from the spec: ALPHA of section 4.2 step 1, the ASCII letters.\<close>

definition is_alpha :: "char \<Rightarrow> bool" where
  "is_alpha c \<longleftrightarrow> 65 \<le> (of_char c :: nat) \<and> (of_char c :: nat) \<le> 90
     \<or> 97 \<le> (of_char c :: nat) \<and> (of_char c :: nat) \<le> 122"

text \<open>Modelled from the spec: the hex digits of section 4.4, of either case.\<close>

definition is_hex :: "char \<Rightarrow> bool" where
  "is_hex c \<longleftrightarrow> is_digit c
     \<or> 65 \<le> (of_char c :: nat) \<and> (of_char c :: nat) \<le> 70
     \<or> 97 \<le> (of_char c :: nat) \<and> (of_char c :: nat) \<le> 102"

text \<open>Modelled from the spec: the value of a hex digit, for percent-decoding (section 4.4).\<close>

definition hex_val :: "char \<Rightarrow> nat" where
  "hex_val c = (if is_digit c then of_char c - 48
     else if 97 \<le> (of_char c :: nat) then of_char c - 87 else of_char c - 55)"

text \<open>Modelled from the spec: the uppercase hex digit of a value below sixteen, for percent-encoding (section 4.4).\<close>

definition hex_char :: "nat \<Rightarrow> char" where
  "hex_char k = (if k < 10 then char_of (48 + k) else char_of (55 + k))"

text \<open>Modelled from the spec: the unreserved set of section 4.4 and the sub-delimiters of
  the standard URI grammar, which open question 2 of the specification refers to.\<close>

definition unreserved :: "char \<Rightarrow> bool" where
  "unreserved c \<longleftrightarrow> is_alpha c \<or> is_digit c \<or> c \<in> set ''-._~''"

text \<open>Modelled from the spec: the sub-delimiters, which section 4.4 and open question 2 leave to the standard URI grammar.\<close>

definition sub_delims :: string where
  "sub_delims = [CHR ''!'', CHR ''$'', CHR ''&'', CHR 0x27, CHR ''('', CHR '')'', CHR ''*'',
     CHR ''+'', CHR '','', CHR '';'', CHR ''='']"

text \<open>Modelled from the spec: the per-component allow-lists of section 4.4.\<close>

definition user_allowed :: "char \<Rightarrow> bool" where
  "user_allowed c \<longleftrightarrow> unreserved c \<or> c \<in> set sub_delims \<or> c = CHR '':''"

text \<open>Modelled from the spec: section 4.4, the allow-list of the host, the same as that of the user info.\<close>

definition host_allowed :: "char \<Rightarrow> bool" where
  "host_allowed c \<longleftrightarrow> unreserved c \<or> c \<in> set sub_delims \<or> c = CHR '':''"

text \<open>Modelled from the spec: section 4.4, the allow-list of the path.\<close>

definition path_allowed :: "char \<Rightarrow> bool" where
  "path_allowed c \<longleftrightarrow> unreserved c \<or> c \<in> set ''/:@'' \<or> c \<in> set sub_delims"

text \<open>Modelled from the spec: section 4.4, the allow-list of query keys and values.\<close>

definition query_allowed :: "char \<Rightarrow> bool" where
  "query_allowed c \<longleftrightarrow> unreserved c \<or> c \<in> set ''/?''
     \<or> (c \<in> set sub_delims \<and> c \<noteq> CHR ''&'' \<and> c \<noteq> CHR ''='')"

text \<open>Modelled from the spec: section 4.4, the allow-list of the fragment.\<close>

definition fragment_allowed :: "char \<Rightarrow> bool" where
  "fragment_allowed c \<longleftrightarrow> unreserved c \<or> c \<in> set ''/?'' \<or> c \<in> set sub_delims"

subsection \<open>Percent-encoding\<close>

text \<open>Modelled from the spec: section 4.4, percent-encode. A byte outside the allow-list
  becomes \<^verbatim>\<open>%\<close> and two uppercase hex digits.\<close>

definition encode_char :: "(char \<Rightarrow> bool) \<Rightarrow> char \<Rightarrow> string" where
  "encode_char allowed c = (if allowed c then [c]
     else [CHR ''%'', hex_char ((of_char c :: nat) div 16), hex_char ((of_char c :: nat) mod 16)])"

text \<open>Modelled from the spec: section 4.4, percent-encode applied to every byte of a component.\<close>

definition encode :: "(char \<Rightarrow> bool) \<Rightarrow> string \<Rightarrow> string" where
  "encode allowed s = concat (map (encode_char allowed) s)"

text \<open>Modelled from the spec: section 4.4, percent-decode. \<^verbatim>\<open>%XX\<close> with hex digits of
  either case is one byte; a \<^verbatim>\<open>%\<close> not followed by two hex digits fails (\<open>None\<close>).\<close>

fun decode :: "string \<Rightarrow> string option" where
  "decode [] = Some []"
| "decode (c # cs) =
     (if c = CHR ''%'' then
        (case cs of
           h1 # h2 # rest \<Rightarrow>
             (if is_hex h1 \<and> is_hex h2
              then map_option ((#) (char_of (hex_val h1 * 16 + hex_val h2))) (decode rest)
              else None)
         | _ \<Rightarrow> None)
      else map_option ((#) c) (decode cs))"

subsection \<open>Splitting and joining\<close>

text \<open>Modelled from the spec: the splits that section 4.2 names (on every separator, at
  the last separator) and the join of section 4.3.\<close>

fun split_on :: "char \<Rightarrow> string \<Rightarrow> string list" where
  "split_on d [] = [[]]"
| "split_on d (c # cs) =
     (if c = d then [] # split_on d cs
      else (case split_on d cs of [] \<Rightarrow> [[c]] | t # ts \<Rightarrow> (c # t) # ts))"

text \<open>Modelled from the spec: section 4.3, tokens joined by a separator.\<close>

fun join :: "char \<Rightarrow> string list \<Rightarrow> string" where
  "join d [] = []"
| "join d [t] = t"
| "join d (t # ts) = t @ d # join d ts"

text \<open>Modelled from the spec: section 4.2 steps 2 and 3, the split at the last occurrence of a separator; \<open>None\<close> when it does not occur.\<close>

definition split_last :: "char \<Rightarrow> string \<Rightarrow> (string \<times> string) option" where
  "split_last d s =
     (if d \<in> set s
      then Some (rev (tl (dropWhile (\<lambda>c. c \<noteq> d) (rev s))), rev (takeWhile (\<lambda>c. c \<noteq> d) (rev s)))
      else None)"

subsection \<open>Port\<close>

text \<open>Modelled from the spec: section 4.2 step 4. The numeric value of a digit string,
  and the check "all-decimal digits, numeric value at most 65535; empty is allowed".\<close>

definition dec_value :: "string \<Rightarrow> nat" where
  "dec_value s = foldl (\<lambda>a c. 10 * a + (of_char c - 48)) 0 s"

text \<open>Modelled from the spec: section 4.2 step 4, what a port is.\<close>

definition valid_port :: "string \<Rightarrow> bool" where
  "valid_port p \<longleftrightarrow> p = [] \<or> (list_all is_digit p \<and> dec_value p \<le> 65535)"

subsection \<open>Host classifier\<close>

text \<open>Modelled from the spec: section 4.2 step 3, the IPv4 form: four dot-separated
  decimal octets, each 0 to 255, no non-zero value with a leading zero.\<close>

definition is_octet :: "string \<Rightarrow> bool" where
  "is_octet s \<longleftrightarrow> s \<noteq> [] \<and> list_all is_digit s \<and> dec_value s \<le> 255
     \<and> (dec_value s = 0 \<or> hd s \<noteq> CHR ''0'')"

text \<open>Modelled from the spec: section 4.2 step 3, four dot-separated octets.\<close>

definition is_ipv4 :: "string \<Rightarrow> bool" where
  "is_ipv4 h \<longleftrightarrow> length (split_on (CHR ''.'') h) = 4 \<and> list_all is_octet (split_on (CHR ''.'') h)"

text \<open>Modelled from the spec: section 4.2 step 3, the IPv6 literal: eight colon-separated
  hextets, with at most one \<^verbatim>\<open>::\<close> run standing for the missing ones.\<close>

definition is_hextet :: "string \<Rightarrow> bool" where
  "is_hextet s \<longleftrightarrow> s \<noteq> [] \<and> length s \<le> 4 \<and> list_all is_hex s"

text \<open>Modelled from the spec: section 4.2 step 3, the number of colon-separated hextets of a text; \<open>None\<close> when a part is not a hextet.\<close>

definition hextets :: "string \<Rightarrow> nat option" where
  "hextets s = (if s = [] then Some 0
     else if list_all is_hextet (split_on (CHR '':'') s) then Some (length (split_on (CHR '':'') s))
     else None)"

text \<open>Modelled from the spec: section 4.2 step 3, the split at the first \<^verbatim>\<open>::\<close> run.\<close>

fun split_dcolon :: "string \<Rightarrow> (string \<times> string) option" where
  "split_dcolon [] = None"
| "split_dcolon (c # cs) =
     (case cs of
        [] \<Rightarrow> None
      | d # ds \<Rightarrow>
          (if c = CHR '':'' \<and> d = CHR '':'' then Some ([], ds)
           else map_option (\<lambda>(a, b). (c # a, b)) (split_dcolon cs)))"

text \<open>Modelled from the spec: section 4.2 step 3, eight hextets, or at most seven around one \<^verbatim>\<open>::\<close> run.\<close>

definition valid_ipv6 :: "string \<Rightarrow> bool" where
  "valid_ipv6 s =
     (case split_dcolon s of
        None \<Rightarrow> hextets s = Some 8
      | Some (a, b) \<Rightarrow>
          (case hextets a of
             None \<Rightarrow> False
           | Some m \<Rightarrow> (case hextets b of None \<Rightarrow> False | Some n \<Rightarrow> m + n \<le> 7)))"

subsection \<open>Parser\<close>

text \<open>The field set that the parser produces and the builder consumes: the seven fields of
  the class together with the host kind.\<close>

record url_fields =
  f_scheme :: string
  f_user :: string
  f_host :: string
  f_ip_v :: int
  f_port :: string
  f_path :: string
  f_query :: "KeyVal list"
  f_fragment :: string

text \<open>Modelled from the spec: section 4.2 step 1, the delimiters that end the scheme.\<close>

definition scheme_end :: "char \<Rightarrow> bool" where
  "scheme_end c \<longleftrightarrow> c = CHR '':'' \<or> c = CHR ''/'' \<or> c = CHR ''?'' \<or> c = CHR ''#''"

text \<open>Modelled from the spec: section 4.2 step 2, the delimiters that end the authority.\<close>

definition authority_end :: "char \<Rightarrow> bool" where
  "authority_end c \<longleftrightarrow> c = CHR ''/'' \<or> c = CHR ''?'' \<or> c = CHR ''#''"

text \<open>Modelled from the spec: section 4.2 step 5, the delimiters that end the path.\<close>

definition path_end :: "char \<Rightarrow> bool" where
  "path_end c \<longleftrightarrow> c = CHR ''?'' \<or> c = CHR ''#''"

text \<open>Modelled from the spec: section 4.2 step 1. The scheme is present iff a colon occurs
  before any of \<^verbatim>\<open>/ ? #\<close> and the text before it is ALPHA followed by ALPHA, DIGIT,
  \<^verbatim>\<open>+ - .\<close>; otherwise the scheme is empty and the whole input is a relative reference.
  So the parser never fails on a scheme: the failure "invalid scheme syntax" that closes
  the section is left to the scheme setter.\<close>

definition is_scheme :: "string \<Rightarrow> bool" where
  "is_scheme s \<longleftrightarrow> s \<noteq> [] \<and> is_alpha (hd s)
     \<and> list_all (\<lambda>c. is_alpha c \<or> is_digit c \<or> c \<in> set ''+-.'') (tl s)"

text \<open>Modelled from the spec: section 4.2 step 1, the split into scheme and remainder.\<close>

definition split_scheme :: "string \<Rightarrow> string \<times> string" where
  "split_scheme s =
     (case dropWhile (\<lambda>c. \<not> scheme_end c) s of
        [] \<Rightarrow> ([], s)
      | c # r \<Rightarrow>
          (if c = CHR '':'' \<and> is_scheme (takeWhile (\<lambda>c. \<not> scheme_end c) s)
           then (takeWhile (\<lambda>c. \<not> scheme_end c) s, r)
           else ([], s)))"

text \<open>Modelled from the spec: section 4.2 step 2. The authority is present iff the
  remainder starts with \<^verbatim>\<open>//\<close>, and runs to the next \<^verbatim>\<open>/ ? #\<close> or the end.\<close>

definition split_authority :: "string \<Rightarrow> string option \<times> string" where
  "split_authority r =
     (case r of
        c # d # rest \<Rightarrow>
          (if c = CHR ''/'' \<and> d = CHR ''/''
           then (Some (takeWhile (\<lambda>c. \<not> authority_end c) rest), dropWhile (\<lambda>c. \<not> authority_end c) rest)
           else (None, r))
      | _ \<Rightarrow> (None, r))"

text \<open>Modelled from the spec: section 4.2 step 3. The split point between host and port is
  the last colon that is not inside the bracket pair.\<close>

definition split_host_port :: "string \<Rightarrow> string \<times> string" where
  "split_host_port hp =
     (if hp \<noteq> [] \<and> hd hp = CHR ''[''
      then (case split_last (CHR '':'') (dropWhile (\<lambda>c. c \<noteq> CHR '']'') hp) of
              None \<Rightarrow> (hp, [])
            | Some (a, p) \<Rightarrow> (takeWhile (\<lambda>c. c \<noteq> CHR '']'') hp @ a, p))
      else (case split_last (CHR '':'') hp of
              None \<Rightarrow> (hp, [])
            | Some (h, p) \<Rightarrow> (h, p)))"

text \<open>Modelled from the spec: section 4.2 step 3 and section 4.5. A host that starts with
  \<^verbatim>\<open>[\<close> must end with \<^verbatim>\<open>]\<close> and enclose a valid IPv6 literal; else four decimal octets
  are IPv4; else the host is a name and is percent-decoded. The kinds are the values of
  \<^verbatim>\<open>ip_version()\<close>: 0 name, 4 IPv4, 6 IPv6.\<close>

definition parse_host :: "string \<Rightarrow> error + string \<times> int" where
  "parse_host h =
     (if h \<noteq> [] \<and> hd h = CHR ''[''
      then (if last h = CHR '']'' \<and> valid_ipv6 (butlast (tl h))
            then Inr (butlast (tl h), 6)
            else Inl (parse_error ''host''))
      else if is_ipv4 h then Inr (h, 4)
      else (case decode h of
              None \<Rightarrow> Inl (parse_error ''host'')
            | Some n \<Rightarrow> Inr (n, 0)))"

text \<open>Modelled from the spec: section 4.2 steps 2 to 4. The authority is split at the last
  \<^verbatim>\<open>@\<close> into user info (percent-decoded) and host:port; the port is validated.\<close>

definition parse_authority :: "string \<Rightarrow> error + string \<times> string \<times> int \<times> string" where
  "parse_authority a =
     (let (ui, hp) = (case split_last (CHR ''@'') a of None \<Rightarrow> ([], a) | Some x \<Rightarrow> x)
      in case decode ui of
           None \<Rightarrow> Inl (parse_error ''user info'')
         | Some user \<Rightarrow>
             (case parse_host (fst (split_host_port hp)) of
                Inl e \<Rightarrow> Inl e
              | Inr (hn, ipv) \<Rightarrow>
                  (if valid_port (snd (split_host_port hp))
                   then Inr (user, hn, ipv, snd (split_host_port hp))
                   else Inl (parse_error ''port''))))"

text \<open>Modelled from the spec: section 4.2 step 6. The query text is split on \<^verbatim>\<open>&\<close>;
  each token splits at its first \<^verbatim>\<open>=\<close>; key and value are decoded independently. A token
  without \<^verbatim>\<open>=\<close> gets the empty value, since \<^verbatim>\<open>KeyVal\<close> holds two plain strings.\<close>

definition parse_token :: "string \<Rightarrow> KeyVal option" where
  "parse_token t =
     (case decode (takeWhile (\<lambda>c. c \<noteq> CHR ''='') t) of
        None \<Rightarrow> None
      | Some k \<Rightarrow>
          (case decode (drop 1 (dropWhile (\<lambda>c. c \<noteq> CHR ''='') t)) of
             None \<Rightarrow> None
           | Some v \<Rightarrow> Some (KeyVal_kv k v)))"

text \<open>Modelled from the spec: section 4.2 step 6, the whole query text.\<close>

definition parse_query :: "string \<Rightarrow> KeyVal list option" where
  "parse_query q = those (map parse_token (split_on (CHR ''&'') q))"

text \<open>Modelled from the spec: section 4.2 step 6, the query text: what follows \<^verbatim>\<open>?\<close>, up
  to \<^verbatim>\<open>#\<close>; \<open>None\<close> when there is no \<^verbatim>\<open>?\<close>.\<close>

definition split_query :: "string \<Rightarrow> string option \<times> string" where
  "split_query r =
     (case r of
        [] \<Rightarrow> (None, r)
      | c # t \<Rightarrow>
          (if c = CHR ''?''
           then (Some (takeWhile (\<lambda>c. c \<noteq> CHR ''#'') t), dropWhile (\<lambda>c. c \<noteq> CHR ''#'') t)
           else (None, r)))"

text \<open>Modelled from the spec: section 4.2 step 7, the text after \<^verbatim>\<open>#\<close>.\<close>

definition split_fragment :: "string \<Rightarrow> string" where
  "split_fragment r = (case r of [] \<Rightarrow> [] | c # t \<Rightarrow> (if c = CHR ''#'' then t else []))"

text \<open>Modelled from the spec: section 4.2, the whole parser (\<^verbatim>\<open>parse_url\<close> is declared in
  the header and defined in the missing implementation file). A failure names the
  offending component.\<close>

definition parse_fields :: "string \<Rightarrow> error + url_fields" where
  "parse_fields s =
     (let r1 = snd (split_scheme s);
          r2 = snd (split_authority r1);
          r3 = dropWhile (\<lambda>c. \<not> path_end c) r2;
          r4 = snd (split_query r3)
      in case (case fst (split_authority r1) of
                 None \<Rightarrow> Inr ([], [], - 1, [])
               | Some a \<Rightarrow> parse_authority a) of
           Inl e \<Rightarrow> Inl e
         | Inr (user, hn, ipv, pt) \<Rightarrow>
             (case decode (takeWhile (\<lambda>c. \<not> path_end c) r2) of
                None \<Rightarrow> Inl (parse_error ''path'')
              | Some pth \<Rightarrow>
                  (case (case fst (split_query r3) of None \<Rightarrow> Some [] | Some q \<Rightarrow> parse_query q) of
                     None \<Rightarrow> Inl (parse_error ''query'')
                   | Some qry \<Rightarrow>
                       (case decode (split_fragment r4) of
                          None \<Rightarrow> Inl (parse_error ''fragment'')
                        | Some frag \<Rightarrow>
                            Inr \<lparr>f_scheme = fst (split_scheme s), f_user = user, f_host = hn,
                                 f_ip_v = ipv, f_port = pt, f_path = pth, f_query = qry,
                                 f_fragment = frag\<rparr>))))"

subsection \<open>Builder\<close>

text \<open>Modelled from the spec: section 4.3, the query part. Tokens are joined by \<^verbatim>\<open>&\<close>; a
  token is the encoded key, plus \<^verbatim>\<open>=\<close> and the encoded value when there is a value. As
  \<^verbatim>\<open>KeyVal\<close> has no marker for an absent value, the empty value counts as absent.\<close>

definition build_token :: "KeyVal \<Rightarrow> string" where
  "build_token kv = encode query_allowed (m_key kv)
     @ (if m_val kv \<noteq> [] then CHR ''='' # encode query_allowed (m_val kv) else [])"

text \<open>Modelled from the spec: section 4.3, the tokens joined by \<^verbatim>\<open>&\<close>.\<close>

definition build_query :: "KeyVal list \<Rightarrow> string" where
  "build_query q = join (CHR ''&'') (map build_token q)"

text \<open>Modelled from the spec: section 4.3, the whole builder (\<^verbatim>\<open>build_url\<close> is declared in
  the header and defined in the missing implementation file). The three build errors come
  first; the text is emitted in the fixed order of the section.\<close>

definition build_fields :: "url_fields \<Rightarrow> error + string" where
  "build_fields f =
     (let auth = (f_host f \<noteq> [] \<or> f_user f \<noteq> [])
      in if f_ip_v f = 6 \<and> \<not> valid_ipv6 (f_host f) then Inl (build_error ''host is not IPv6'')
         else if f_ip_v f = 4 \<and> \<not> is_ipv4 (f_host f) then Inl (build_error ''host is not IPv4'')
         else if 65535 < dec_value (f_port f) then Inl (build_error ''port'')
         else if auth \<and> f_path f \<noteq> [] \<and> hd (f_path f) \<noteq> CHR ''/'' then Inl (build_error ''path'')
         else Inr (f_scheme f
           @ (if auth then ''://'' else if f_scheme f \<noteq> [] then '':'' else [])
           @ (if f_user f \<noteq> [] then encode user_allowed (f_user f) @ ''@'' else [])
           @ (if f_ip_v f = 6 then ''['' @ f_host f @ '']'' else encode host_allowed (f_host f))
           @ (if f_port f \<noteq> [] then '':'' @ f_port f else [])
           @ encode path_allowed (f_path f)
           @ (if f_query f \<noteq> [] then ''?'' @ build_query (f_query f) else [])
           @ (if f_fragment f \<noteq> [] then ''#'' @ encode fragment_allowed (f_fragment f) else [])))"

section \<open>The lazy cache\<close>

text \<open>
  Every operation takes the instance and returns its result together with the instance
  afterwards: the members are \<^verbatim>\<open>mutable\<close>, so even a \<^verbatim>\<open>const\<close> getter may change them,
  and an operation that throws may have changed them before it throws.
\<close>

type_synonym 'a outcome = "(error + 'a) \<times> Url"

text \<open>The fields of an instance, as the builder reads them.\<close>

definition fields_of :: "Url \<Rightarrow> url_fields" where
  "fields_of u = \<lparr>f_scheme = m_scheme u, f_user = m_user u, f_host = m_host u,
     f_ip_v = m_ip_v u, f_port = m_port u, f_path = m_path u, f_query = m_query u,
     f_fragment = m_fragment u\<rparr>"

text \<open>The assignment of a parsed field set to the members.\<close>

definition store_fields :: "url_fields \<Rightarrow> Url \<Rightarrow> Url" where
  "store_fields f u = u\<lparr>m_scheme := f_scheme f, m_user := f_user f, m_host := f_host f,
     m_ip_v := f_ip_v f, m_port := f_port f, m_path := f_path f, m_query := f_query f,
     m_fragment := f_fragment f\<rparr>"

text \<open>Modelled from the spec: \<^verbatim>\<open>parse_url\<close> is declared in the header and defined in the
  missing implementation file; every call in the header leaves \<^verbatim>\<open>reparse\<close> at its default
  \<^verbatim>\<open>false\<close>. Section 4.1, \<^verbatim>\<open>ensure_fields()\<close>: no-op if the fields are fresh; else run the
  parser over the raw string, populate the fields, set \<^verbatim>\<open>fields_fresh\<close>, and leave the raw
  string and its flag untouched. A parse failure throws and populates nothing.\<close>

definition parse_url :: "Url \<Rightarrow> unit outcome" where
  "parse_url u =
     (if m_parse u then (Inr (), u)
      else (case parse_fields (m_url u) of
              Inl e \<Rightarrow> (Inl e, u)
            | Inr f \<Rightarrow> (Inr (), (store_fields f u)\<lparr>m_parse := True\<rparr>)))"

text \<open>Modelled from the spec: \<^verbatim>\<open>build_url()\<close> is declared in the header and defined in the
  missing implementation file. Section 4.1, \<^verbatim>\<open>ensure_raw()\<close> past its freshness test (which
  \<^verbatim>\<open>toString\<close> does itself): \<^verbatim>\<open>ensure_fields()\<close>, run the builder over the fields,
  overwrite the raw string, set \<^verbatim>\<open>raw_fresh\<close>.\<close>

definition build_url :: "Url \<Rightarrow> unit outcome" where
  "build_url u =
     (case parse_url u of
        (Inl e, u') \<Rightarrow> (Inl e, u')
      | (Inr _, u') \<Rightarrow>
          (case build_fields (fields_of u') of
             Inl e \<Rightarrow> (Inl e, u')
           | Inr t \<Rightarrow> (Inr (), u'\<lparr>m_url := t, m_built := True\<rparr>)))"

text \<open>The statement \<^verbatim>\<open>parse_url();\<close> that opens every getter and setter of the header: when
  it throws, the rest of the body does not run.\<close>

definition after_parse_url :: "Url \<Rightarrow> (Url \<Rightarrow> 'a outcome) \<Rightarrow> 'a outcome" where
  "after_parse_url u body =
     (case parse_url u of
        (Inl e, u') \<Rightarrow> (Inl e, u')
      | (Inr _, u') \<Rightarrow> body u')"

subsection \<open>Serialisation\<close>

text \<open>\<^verbatim>\<open>toString() const\<close>: \<^verbatim>\<open>if (!m_built) build_url(); return m_url;\<close>. The builder is a
  parameter of \<open>toString_with\<close>, so that a statement can say whether it was called.\<close>

definition toString_with :: "(Url \<Rightarrow> unit outcome) \<Rightarrow> Url \<Rightarrow> string outcome" where
  "toString_with builder u =
     (if \<not> m_built u
      then (case builder u of
              (Inl e, u') \<Rightarrow> (Inl e, u')
            | (Inr _, u') \<Rightarrow> (Inr (m_url u'), u'))
      else (Inr (m_url u), u))"

text \<open>\<^verbatim>\<open>toString()\<close> with the builder of the class.\<close>

definition toString :: "Url \<Rightarrow> string outcome" where
  "toString u = toString_with build_url u"

subsection \<open>Getters\<close>

text \<open>\<^verbatim>\<open>const std::string& scheme() const\<close>; every getter is \<^verbatim>\<open>parse_url(); return m_...;\<close>\<close>

definition scheme :: "Url \<Rightarrow> string outcome" where
  "scheme u = after_parse_url u (\<lambda>u'. (Inr (m_scheme u'), u'))"

text \<open>\<^verbatim>\<open>const std::string& user_info() const\<close>\<close>

definition user_info :: "Url \<Rightarrow> string outcome" where
  "user_info u = after_parse_url u (\<lambda>u'. (Inr (m_user u'), u'))"

text \<open>\<^verbatim>\<open>const std::string& host() const\<close>\<close>

definition host :: "Url \<Rightarrow> string outcome" where
  "host u = after_parse_url u (\<lambda>u'. (Inr (m_host u'), u'))"

text \<open>\<^verbatim>\<open>std::int8_t ip_version() const\<close>\<close>

definition ip_version :: "Url \<Rightarrow> int outcome" where
  "ip_version u = after_parse_url u (\<lambda>u'. (Inr (m_ip_v u'), u'))"

text \<open>\<^verbatim>\<open>const std::string& port() const\<close>\<close>

definition port :: "Url \<Rightarrow> string outcome" where
  "port u = after_parse_url u (\<lambda>u'. (Inr (m_port u'), u'))"

text \<open>\<^verbatim>\<open>const std::string& path() const\<close>\<close>

definition path :: "Url \<Rightarrow> string outcome" where
  "path u = after_parse_url u (\<lambda>u'. (Inr (m_path u'), u'))"

text \<open>\<^verbatim>\<open>const std::string& fragment() const\<close>\<close>

definition fragment :: "Url \<Rightarrow> string outcome" where
  "fragment u = after_parse_url u (\<lambda>u'. (Inr (m_fragment u'), u'))"

subsection \<open>Query accessors\<close>

text \<open>\<^verbatim>\<open>const Query& query() const\<close>\<close>

definition query :: "Url \<Rightarrow> KeyVal list outcome" where
  "query u = after_parse_url u (\<lambda>u'. (Inr (m_query u'), u'))"

text \<open>\<^verbatim>\<open>const KeyVal& query(size_t i) const\<close>: \<^verbatim>\<open>parse_url()\<close>, then the bounds check, then
  \<^verbatim>\<open>m_query[i]\<close>. The index is a natural number: it is compared and printed, and no
  arithmetic is done on it.\<close>

definition query_at :: "nat \<Rightarrow> Url \<Rightarrow> KeyVal outcome" where
  "query_at i u = after_parse_url u (\<lambda>u'.
     if i \<ge> length (m_query u')
     then (Inl (out_of_range (''Invalid Url query index ('' @ to_string i @ '')'')), u')
     else (Inr (m_query u' ! i), u'))"

text \<open>\<^verbatim>\<open>Query& set_query()\<close>: \<^verbatim>\<open>parse_url(); m_built = false; return m_query;\<close>\<close>

definition set_query_all :: "Url \<Rightarrow> KeyVal list outcome" where
  "set_query_all u = after_parse_url u (\<lambda>u'. (Inr (m_query u'), u'\<lparr>m_built := False\<rparr>))"

text \<open>\<^verbatim>\<open>KeyVal& set_query(size_t i)\<close>: \<^verbatim>\<open>parse_url()\<close>, the bounds check, then
  \<^verbatim>\<open>m_built = false; return m_query[i];\<close>. The result is a reference into the query: the
  entry it denotes is returned here, and what the caller later writes through the reference
  is \<open>write_entry\<close>, which touches no flag.\<close>

definition set_query_at :: "nat \<Rightarrow> Url \<Rightarrow> KeyVal outcome" where
  "set_query_at i u = after_parse_url u (\<lambda>u'.
     if i \<ge> length (m_query u')
     then (Inl (out_of_range (''Invalid Url query index ('' @ to_string i @ '')'')), u')
     else (Inr (m_query u' ! i), u'\<lparr>m_built := False\<rparr>))"

text \<open>A write through the reference that \<^verbatim>\<open>set_query(size_t)\<close> returned: \<^verbatim>\<open>KeyVal::key(k)\<close> and \<^verbatim>\<open>KeyVal::val(v)\<close> assign the members of the entry and nothing else.\<close>

definition write_entry :: "nat \<Rightarrow> KeyVal \<Rightarrow> Url \<Rightarrow> Url" where
  "write_entry i kv u = u\<lparr>m_query := (m_query u)[i := kv]\<rparr>"

text \<open>\<^verbatim>\<open>Url& set_query(const Query& q)\<close>: \<^verbatim>\<open>parse_url(); if (q != m_query) { m_query = q;
  m_built = false; }\<close>. Vector inequality is element-wise \<^verbatim>\<open>KeyVal::operator==\<close>, which is
  equality of both strings.\<close>

definition set_query :: "KeyVal list \<Rightarrow> Url \<Rightarrow> unit outcome" where
  "set_query q u = after_parse_url u (\<lambda>u'.
     if \<not> (length q = length (m_query u') \<and> list_all2 KeyVal_eq q (m_query u'))
     then (Inr (), u'\<lparr>m_query := q, m_built := False\<rparr>)
     else (Inr (), u'))"

text \<open>The three \<^verbatim>\<open>add_query\<close> overloads: \<^verbatim>\<open>parse_url(); m_built = false;\<close> and the append.\<close>

definition add_query :: "KeyVal \<Rightarrow> Url \<Rightarrow> unit outcome" where
  "add_query kv u = after_parse_url u (\<lambda>u'.
     (Inr (), u'\<lparr>m_built := False, m_query := m_query u' @ [kv]\<rparr>))"

text \<open>\<^verbatim>\<open>Url& add_query(const std::string& key, const std::string& val)\<close>\<close>

definition add_query_kv :: "string \<Rightarrow> string \<Rightarrow> Url \<Rightarrow> unit outcome" where
  "add_query_kv k v u = after_parse_url u (\<lambda>u'.
     (Inr (), u'\<lparr>m_built := False, m_query := m_query u' @ [KeyVal_kv k v]\<rparr>))"

text \<open>\<^verbatim>\<open>Url& add_query(const std::string& key)\<close>\<close>

definition add_query_k :: "string \<Rightarrow> Url \<Rightarrow> unit outcome" where
  "add_query_k k u = after_parse_url u (\<lambda>u'.
     (Inr (), u'\<lparr>m_built := False, m_query := m_query u' @ [KeyVal_k k]\<rparr>))"

subsection \<open>Port setters\<close>

text \<open>Modelled from the spec: \<^verbatim>\<open>Url& port(std::string str)\<close> is declared in the header and
  defined in the missing implementation file. Section 4.1, field mutator:
  \<^verbatim>\<open>ensure_fields()\<close>, write the new value, mark the raw string stale; section 7: validate
  before commit, a failed mutation leaves the instance as it was; section 4.2 step 4 for
  what a port is.\<close>

definition port_str :: "string \<Rightarrow> Url \<Rightarrow> unit outcome" where
  "port_str str u = after_parse_url u (\<lambda>u'.
     if valid_port str
     then (Inr (), u'\<lparr>m_port := str, m_built := False\<rparr>)
     else (Inl (parse_error ''port''), u'))"

text \<open>\<^verbatim>\<open>Url& port(std::uint16_t num) { return port(std::to_string(num)); }\<close>: the argument
  is promoted to \<^verbatim>\<open>int\<close> without change of value, and \<^verbatim>\<open>std::to_string\<close> prints it in
  decimal.\<close>

definition port_u16 :: "16 word \<Rightarrow> Url \<Rightarrow> unit outcome" where
  "port_u16 num u = port_str (to_string (unat num)) u"

subsection \<open>Field sets that survive a round trip\<close>

text \<open>What every field set that the parser returns satisfies: the scheme is empty or
  well-formed; either no authority was seen (kind -1, no user info, host or port) or the
  host is of its kind and the path is empty or absolute; the port is valid.\<close>

definition parsed_invariant :: "url_fields \<Rightarrow> bool" where
  "parsed_invariant f \<longleftrightarrow>
     (f_scheme f = [] \<or> is_scheme (f_scheme f))
     \<and> (f_ip_v f = - 1 \<and> f_user f = [] \<and> f_host f = [] \<and> f_port f = []
        \<or> (f_ip_v f = 0 \<or> f_ip_v f = 4 \<and> is_ipv4 (f_host f) \<or> f_ip_v f = 6 \<and> valid_ipv6 (f_host f))
          \<and> (f_path f = [] \<or> hd (f_path f) = CHR ''/''))
     \<and> valid_port (f_port f)"

text \<open>The field sets for which the text that the builder emits reads back as the same
  field set: with an authority (host or user info) there is a scheme; without one, no
  authority was seen and the path does not start with \<^verbatim>\<open>//\<close>; a host name holds no colon
  and is not a dotted quad; without a scheme, the encoded path does not start with a
  scheme and a colon.\<close>

definition round_trip_safe :: "url_fields \<Rightarrow> bool" where
  "round_trip_safe f \<longleftrightarrow>
     (if f_host f \<noteq> [] \<or> f_user f \<noteq> [] then f_scheme f \<noteq> []
      else f_ip_v f = - 1 \<and> take 2 (f_path f) \<noteq> ''//'')
     \<and> (if f_ip_v f = 0 then CHR '':'' \<notin> set (f_host f) \<and> \<not> is_ipv4 (f_host f) else True)
     \<and> (if f_scheme f = [] then fst (split_scheme (encode path_allowed (f_path f))) = [] else True)"

subsection \<open>Invariant I1\<close>

text \<open>At least one of the two representations is fresh.\<close>

definition I1 :: "Url \<Rightarrow> bool" where
  "I1 u \<longleftrightarrow> m_parse u \<or> m_built u"

subsection \<open>What a caller can see\<close>

text \<open>The results of serialisation and of every getter: the state of an instance as far
  as the public interface shows it. The flags and the cached members are not part of it.\<close>

definition visible_state ::
  "Url \<Rightarrow> (error + string) \<times> (error + string) \<times> (error + string) \<times> (error + string)
     \<times> (error + int) \<times> (error + string) \<times> (error + string) \<times> (error + KeyVal list)
     \<times> (error + string)" where
  "visible_state u = (fst (toString u), fst (scheme u), fst (user_info u), fst (host u),
     fst (ip_version u), fst (port u), fst (path u), fst (query u), fst (fragment u))"

subsection \<open>Instances used as concrete inputs\<close>

text \<open>\<^verbatim>\<open>Url u; u = "http://h/?a=1";\<close> and the same instance once a getter has run.\<close>

definition url_a1 :: Url where
  "url_a1 = assign_string ''http://h/?a=1'' Url_default"

text \<open>The instance \<open>url_a1\<close> once its raw string has been parsed.\<close>

definition url_a1_parsed :: Url where
  "url_a1_parsed = \<lparr>m_scheme = ''http'', m_user = [], m_host = ''h'', m_port = [],
     m_path = ''/'', m_query = [KeyVal_kv ''a'' ''1''], m_fragment = [],
     m_url = ''http://h/?a=1'', m_parse = True, m_built = True, m_ip_v = 0\<rparr>"

text \<open>\<^verbatim>\<open>Url u; u = "http://example.com:8080/";\<close>: an instance whose URL has a port.\<close>

definition url_port :: Url where
  "url_port = assign_string ''http://example.com:8080/'' Url_default"

text \<open>The instance \<open>url_port\<close> once its raw string has been parsed.\<close>

definition url_port_parsed :: Url where
  "url_port_parsed = \<lparr>m_scheme = ''http'', m_user = [], m_host = ''example.com'',
     m_port = ''8080'', m_path = ''/'', m_query = [], m_fragment = [],
     m_url = ''http://example.com:8080/'', m_parse = True, m_built = True, m_ip_v = 0\<rparr>"

section \<open>Evaluation\<close>

text \<open>The definitions that the simplifier unfolds to run the parser and the builder on a
  concrete text.\<close>

lemmas delim_defs = scheme_end_def authority_end_def path_end_def

lemmas parser_eval = parse_fields_def split_scheme_def delim_defs is_scheme_def is_alpha_def
  is_digit_def is_hex_def hex_val_def split_authority_def parse_authority_def split_last_def
  split_host_port_def parse_host_def is_ipv4_def is_octet_def valid_port_def dec_value_def
  split_query_def split_fragment_def parse_query_def parse_token_def KeyVal_kv_def char_of_def
  bit_Suc_0_iff

lemmas builder_eval = build_fields_def build_query_def build_token_def encode_def
  encode_char_def user_allowed_def host_allowed_def path_allowed_def query_allowed_def
  fragment_allowed_def unreserved_def sub_delims_def hex_char_def

section \<open>The cache engine: basic facts\<close>

lemma KeyVal_eq_iff: "KeyVal_eq p q \<longleftrightarrow> p = q"
  by (cases p, cases q) (simp add: KeyVal_eq_def)

lemma list_all2_KeyVal_eq: "list_all2 KeyVal_eq q m \<longleftrightarrow> q = m"
  by (simp add: list_all2_conv_all_nth KeyVal_eq_iff list_eq_iff_nth_eq)

lemma parse_url_fresh: "m_parse u \<Longrightarrow> parse_url u = (Inr (), u)"
  by (simp add: parse_url_def)

lemma parse_url_frame:
  "parse_url u = (r, u') \<Longrightarrow> m_built u' = m_built u \<and> m_url u' = m_url u"
  by (auto simp: parse_url_def store_fields_def split: if_splits sum.splits)

lemma parse_url_ok_parsed: "parse_url u = (Inr x, u') \<Longrightarrow> m_parse u'"
  by (auto simp: parse_url_def split: if_splits sum.splits)

lemma parse_url_failed: "parse_url u = (Inl e, u') \<Longrightarrow> u' = u"
  by (auto simp: parse_url_def split: if_splits sum.splits)

lemma after_parse_url_ok:
  "parse_url u = (Inr (), u') \<Longrightarrow> after_parse_url u body = body u'"
  by (simp add: after_parse_url_def)

lemma parse_url_idem: "parse_url u = (Inr (), u') \<Longrightarrow> parse_url u' = (Inr (), u')"
  by (rule parse_url_fresh) (rule parse_url_ok_parsed)

lemma build_url_after_parse: "parse_url u = (Inr (), u') \<Longrightarrow> build_url u' = build_url u"
  by (simp add: build_url_def parse_url_idem)

lemma toString_after_parse:
  "parse_url u = (Inr (), u') \<Longrightarrow> fst (toString u') = fst (toString u)"
  using parse_url_frame [of u "Inr ()" u']
  by (simp add: toString_def toString_with_def build_url_after_parse)

text \<open>The lazy parse changes nothing that a caller can see.\<close>

lemma visible_state_after_parse:
  assumes "parse_url u = (Inr (), u')"
  shows "visible_state u' = visible_state u"
  using toString_after_parse [OF assms]
  by (simp add: visible_state_def scheme_def user_info_def host_def ip_version_def port_def
      path_def query_def fragment_def after_parse_url_ok [OF assms]
      after_parse_url_ok [OF parse_url_idem [OF assms]])

text \<open>Assignment from a string adopts the raw form: the raw string is fresh, the fields are
  stale, and serialisation returns the string without calling the builder.\<close>

lemma parse_adopts_raw:
  "m_built (parse s u) \<and> \<not> m_parse (parse s u) \<and> m_url (parse s u) = s
     \<and> toString_with builder (parse s u) = (Inr s, parse s u)"
  by (simp add: parse_def toString_with_def)

subsection \<open>Evaluation at the concrete instance\<close>

lemma parse_fields_a1:
  "parse_fields ''http://h/?a=1'' = Inr \<lparr>f_scheme = ''http'', f_user = [], f_host = ''h'',
     f_ip_v = 0, f_port = [], f_path = ''/'', f_query = [KeyVal_kv ''a'' ''1''],
     f_fragment = []\<rparr>"
  by (simp add: parse_fields_def split_scheme_def scheme_end_def authority_end_def path_end_def
      is_scheme_def is_alpha_def
      split_authority_def parse_authority_def split_last_def split_host_port_def
      parse_host_def is_ipv4_def valid_port_def split_query_def split_fragment_def
      parse_query_def parse_token_def)

lemma parse_url_a1: "parse_url url_a1 = (Inr (), url_a1_parsed)"
  by (simp add: parse_url_def url_a1_def assign_string_def parse_def Url_default_def
      parse_fields_a1 store_fields_def url_a1_parsed_def)

lemma parse_url_a1_parsed: "parse_url url_a1_parsed = (Inr (), url_a1_parsed)"
  by (simp add: parse_url_fresh url_a1_parsed_def)

lemma to_string_1: "to_string 1 = ''1''"
  by (simp add: to_string.simps digit_char_def char_of_def bit_Suc_0_iff)

section \<open>Query entries\<close>

text \<open>
  Claim C9. For every key \<open>k\<close>, the entry built from the key alone is equal, under
  \<^verbatim>\<open>operator==\<close> and as a value, to the entry built from \<open>k\<close> and the empty string, and
  \<^verbatim>\<open>val()\<close> returns the empty string for both: nothing marks a value as absent.
\<close>

theorem KeyVal_key_only_has_empty_value:
  "KeyVal_eq (KeyVal_k k) (KeyVal_kv k []) \<and> KeyVal_k k = KeyVal_kv k []
     \<and> val (KeyVal_k k) = val (KeyVal_kv k []) \<and> val (KeyVal_k k) = []"
  by (simp add: KeyVal_eq_def KeyVal_k_def KeyVal_kv_def val_def)

section \<open>Freshness flags\<close>

subsection \<open>Where invariant I1 holds\<close>

lemma I1_Url_default: "I1 Url_default"
  by (simp add: I1_def Url_default_def)

lemma I1_parse: "I1 (parse s u)"
  by (simp add: I1_def parse_def)

lemma I1_parse_url: "I1 u \<Longrightarrow> I1 (snd (parse_url u))"
  by (auto simp: I1_def parse_url_def split: sum.splits)

lemma parse_url_cases:
  obtains e where "parse_url u = (Inl e, u)"
  | v where "parse_url u = (Inr (), v)" and "m_parse v"
proof (cases "parse_url u")
  case (Pair r v)
  show ?thesis
  proof (cases r)
    case (Inl e)
    with Pair parse_url_failed [of u e v] that(1) show ?thesis by simp
  next
    case (Inr x)
    with Pair parse_url_ok_parsed [of u x v] that(2) show ?thesis by simp
  qed
qed

text \<open>A getter or setter whose body keeps \<^verbatim>\<open>m_parse\<close> set preserves the invariant: when the
  lazy parse throws nothing has changed, and when it returns the fields are fresh.\<close>

lemma I1_after_parse_url:
  assumes "\<And>v. m_parse v \<Longrightarrow> m_parse (snd (body v))" and "I1 u"
  shows "I1 (snd (after_parse_url u body))"
proof (cases u rule: parse_url_cases)
  case (1 e)
  with assms(2) show ?thesis
    by (simp add: after_parse_url_def)
next
  case (2 v)
  with assms(1) [of v] show ?thesis
    by (simp add: after_parse_url_def I1_def)
qed

lemma I1_getters:
  assumes "I1 u"
  shows "I1 (snd (scheme u))" "I1 (snd (user_info u))" "I1 (snd (host u))"
    "I1 (snd (ip_version u))" "I1 (snd (port u))" "I1 (snd (path u))" "I1 (snd (fragment u))"
    "I1 (snd (query u))" "I1 (snd (query_at i u))"
  unfolding scheme_def user_info_def host_def ip_version_def port_def path_def fragment_def
    query_def query_at_def
  by (rule I1_after_parse_url [OF _ assms], simp)+

lemma I1_setters:
  assumes "I1 u"
  shows "I1 (snd (set_query_all u))" "I1 (snd (set_query_at i u))" "I1 (snd (set_query q u))"
    "I1 (snd (add_query kv u))" "I1 (snd (add_query_kv k v u))" "I1 (snd (add_query_k k u))"
    "I1 (snd (port_str str u))" "I1 (snd (port_u16 num u))"
  unfolding set_query_all_def set_query_at_def set_query_def add_query_def add_query_kv_def
    add_query_k_def port_u16_def port_str_def
  by (rule I1_after_parse_url [OF _ assms], simp)+

lemma I1_toString:
  assumes "I1 u"
  shows "I1 (snd (toString u))"
proof (cases "m_built u")
  case True
  with assms show ?thesis
    by (simp add: toString_def toString_with_def)
next
  case False
  show ?thesis
  proof (cases u rule: parse_url_cases)
    case (1 e)
    with False assms show ?thesis
      by (simp add: toString_def toString_with_def build_url_def)
  next
    case (2 v)
    with False show ?thesis
      by (simp add: toString_def toString_with_def build_url_def I1_def split: sum.splits)
  qed
qed

subsection \<open>The string constructor\<close>

text \<open>
  Claim C1. The claim is that \<^verbatim>\<open>m_parse\<close> and \<^verbatim>\<open>m_built\<close> are never both false. The
  string constructor sets both to false: for the input \<^verbatim>\<open>"http://example.com/"\<close> the
  instance it returns has neither flag set.
\<close>

theorem Url_string_both_flags_false:
  "m_parse (Url_string ''http://example.com/'') = False
     \<and> m_built (Url_string ''http://example.com/'') = False"
  by (simp add: Url_string_def)

text \<open>With the builder of section 4.3 the two ways of adopting the same string differ in
  what \<^verbatim>\<open>toString()\<close> returns: after assignment it is the string itself, after the string
  constructor it is the rebuilt text.\<close>

lemma toString_after_assign_and_constructor:
  "fst (toString (assign_string ''http://h/?b='' Url_default)) = Inr ''http://h/?b=''"
  "fst (toString (Url_string ''http://h/?b='')) = Inr ''http://h/?b''"
proof -
  show "fst (toString (assign_string ''http://h/?b='' Url_default)) = Inr ''http://h/?b=''"
    by (simp add: toString_def assign_string_def parse_adopts_raw)
  have parsed: "parse_fields ''http://h/?b='' = Inr \<lparr>f_scheme = ''http'', f_user = [],
      f_host = ''h'', f_ip_v = 0, f_port = [], f_path = ''/'', f_query = [KeyVal_kv ''b'' []],
      f_fragment = []\<rparr>"
    by (simp add: parser_eval)
  have built: "build_fields \<lparr>f_scheme = ''http'', f_user = [],
      f_host = ''h'', f_ip_v = 0, f_port = [], f_path = ''/'', f_query = [KeyVal_kv ''b'' []],
      f_fragment = []\<rparr> = Inr ''http://h/?b''"
    by (simp add: builder_eval KeyVal_kv_def is_alpha_def is_digit_def dec_value_def)
  show "fst (toString (Url_string ''http://h/?b='')) = Inr ''http://h/?b''"
    by (simp add: toString_def toString_with_def build_url_def parse_url_def Url_string_def
        parsed store_fields_def fields_of_def built)
qed

text \<open>
  Claim C2. The claim is that the string constructor, like assignment from a string,
  leaves the raw string fresh, so that \<^verbatim>\<open>toString()\<close> returns it without calling the
  builder. After the constructor \<^verbatim>\<open>m_built\<close> is false and \<^verbatim>\<open>toString()\<close> calls the
  builder: with a builder that throws, \<^verbatim>\<open>toString()\<close> throws.
\<close>

theorem Url_string_toString_calls_builder:
  "m_built (Url_string ''http://h/?b='') = False
     \<and> toString_with (\<lambda>u. (Inl (build_error ''builder called''), u)) (Url_string ''http://h/?b='')
         = (Inl (build_error ''builder called''), Url_string ''http://h/?b='')"
  by (simp add: Url_string_def toString_with_def)

section \<open>Query accessors: staleness and bounds\<close>

text \<open>
  Claim C4, as amended. When the lazy parse succeeds and \<open>i\<close> is within the parsed query,
  \<^verbatim>\<open>set_query(i)\<close> returns entry \<open>i\<close> and marks the raw string stale at once; whatever
  the caller then writes through the returned reference, the raw string stays stale.
\<close>

theorem set_query_at_marks_stale:
  assumes "parse_url u = (Inr (), u')" and "i < length (m_query u')"
  shows "set_query_at i u = (Inr (m_query u' ! i), u'\<lparr>m_built := False\<rparr>)
     \<and> \<not> m_built (write_entry i kv (u'\<lparr>m_built := False\<rparr>))"
  using assms by (simp add: set_query_at_def after_parse_url_ok write_entry_def)

theorem set_query_at_marks_stale_witness:
  "parse_url url_a1 = (Inr (), url_a1_parsed) \<and> 0 < length (m_query url_a1_parsed)
     \<and> set_query_at 0 url_a1 = (Inr (KeyVal_kv ''a'' ''1''), url_a1_parsed\<lparr>m_built := False\<rparr>)
     \<and> \<not> m_built (write_entry 0 (KeyVal_kv ''a'' ''2'') (url_a1_parsed\<lparr>m_built := False\<rparr>))"
proof -
  have len: "0 < length (m_query url_a1_parsed)"
    by (simp add: url_a1_parsed_def)
  have entry: "m_query url_a1_parsed ! 0 = KeyVal_kv ''a'' ''1''"
    by (simp add: url_a1_parsed_def)
  from set_query_at_marks_stale [OF parse_url_a1 len, of "KeyVal_kv ''a'' ''2''"]
  show ?thesis
    unfolding entry using parse_url_a1 len by blast
qed

text \<open>
  The claim C4 as stated fails: on an instance whose raw string is fresh, \<^verbatim>\<open>set_query(0)\<close>
  followed by no write at all, or by writing the old value back, leaves entry 0 as it was
  and the raw string stale.
\<close>

theorem set_query_at_same_entry_counterexample:
  "m_built url_a1
     \<and> fst (set_query_at 0 url_a1) = Inr (KeyVal_kv ''a'' ''1'')
     \<and> m_query (snd (set_query_at 0 url_a1)) ! 0 = KeyVal_kv ''a'' ''1''
     \<and> \<not> m_built (snd (set_query_at 0 url_a1))
     \<and> m_query (write_entry 0 (KeyVal_kv ''a'' ''1'') (snd (set_query_at 0 url_a1))) ! 0
         = KeyVal_kv ''a'' ''1''
     \<and> \<not> m_built (write_entry 0 (KeyVal_kv ''a'' ''1'') (snd (set_query_at 0 url_a1)))"
  by (simp add: set_query_at_def after_parse_url_ok [OF parse_url_a1] write_entry_def)
    (simp add: url_a1_def url_a1_parsed_def assign_string_def parse_def)

text \<open>
  Claim C5, as amended. \<^verbatim>\<open>set_query(q)\<close> first brings the fields up to date, which sets
  \<^verbatim>\<open>m_parse\<close> if it was false. When \<open>q\<close> is equal to the query sequence the instance then
  holds, nothing else happens: the query, the raw string and \<^verbatim>\<open>m_built\<close> are as before,
  and an instance whose fields were already fresh is unchanged as a whole. When \<open>q\<close>
  differs, the query becomes \<open>q\<close> and the raw string is marked stale.
\<close>

theorem set_query_same_sequence:
  assumes "parse_url u = (Inr (), u')"
  shows "(q = m_query u' \<longrightarrow>
            set_query q u = (Inr (), u') \<and> m_query u' = q \<and> m_url u' = m_url u
              \<and> m_built u' = m_built u \<and> m_parse u' \<and> (m_parse u \<longrightarrow> u' = u))
       \<and> (q \<noteq> m_query u' \<longrightarrow> set_query q u = (Inr (), u'\<lparr>m_query := q, m_built := False\<rparr>))"
proof -
  have "m_parse u \<Longrightarrow> u' = u"
    using assms by (simp add: parse_url_fresh)
  then show ?thesis
    using assms parse_url_frame [OF assms] parse_url_ok_parsed [OF assms]
    by (auto simp: set_query_def after_parse_url_ok list_all2_KeyVal_eq)
qed

theorem set_query_same_sequence_witness:
  "parse_url url_a1 = (Inr (), url_a1_parsed)
     \<and> set_query [KeyVal_kv ''a'' ''1''] url_a1 = (Inr (), url_a1_parsed)
     \<and> m_url url_a1_parsed = m_url url_a1 \<and> m_built url_a1_parsed = m_built url_a1
     \<and> parse_url url_a1_parsed = (Inr (), url_a1_parsed)
     \<and> set_query [KeyVal_kv ''a'' ''1''] url_a1_parsed = (Inr (), url_a1_parsed)
     \<and> set_query [] url_a1 = (Inr (), url_a1_parsed\<lparr>m_query := [], m_built := False\<rparr>)"
proof -
  have same: "[KeyVal_kv ''a'' ''1''] = m_query url_a1_parsed"
    and differs: "[] \<noteq> m_query url_a1_parsed"
    by (simp_all add: url_a1_parsed_def)
  from set_query_same_sequence [OF parse_url_a1, of "[KeyVal_kv ''a'' ''1'']"] same
  have a: "set_query [KeyVal_kv ''a'' ''1''] url_a1 = (Inr (), url_a1_parsed)
      \<and> m_url url_a1_parsed = m_url url_a1 \<and> m_built url_a1_parsed = m_built url_a1"
    by blast
  from set_query_same_sequence [OF parse_url_a1_parsed, of "[KeyVal_kv ''a'' ''1'']"] same
  have b: "set_query [KeyVal_kv ''a'' ''1''] url_a1_parsed = (Inr (), url_a1_parsed)"
    by blast
  from set_query_same_sequence [OF parse_url_a1, of "[]"] differs
  have c: "set_query [] url_a1 = (Inr (), url_a1_parsed\<lparr>m_query := [], m_built := False\<rparr>)"
    by blast
  from a b c parse_url_a1 parse_url_a1_parsed show ?thesis
    by blast
qed

text \<open>
  The claim C5 as stated fails on an instance whose fields are stale. For the instance
  after \<^verbatim>\<open>u = "http://h/?a=1"\<close>, the getter \<^verbatim>\<open>query()\<close> reports the sequence \<open>[(a, 1)]\<close>;
  \<^verbatim>\<open>set_query\<close> with that same sequence succeeds and leaves \<^verbatim>\<open>m_parse\<close> true, where it
  was false before: a freshness flag has changed.
\<close>

theorem set_query_same_sequence_counterexample:
  "\<not> m_parse url_a1
     \<and> fst (query url_a1) = Inr [KeyVal_kv ''a'' ''1'']
     \<and> fst (set_query [KeyVal_kv ''a'' ''1''] url_a1) = Inr ()
     \<and> m_parse (snd (set_query [KeyVal_kv ''a'' ''1''] url_a1))"
  by (simp add: set_query_def query_def after_parse_url_ok [OF parse_url_a1] list_all2_KeyVal_eq)
    (simp add: url_a1_def url_a1_parsed_def assign_string_def parse_def)

text \<open>
  Claim C6. When the lazy parse succeeds, \<^verbatim>\<open>query(i)\<close> and \<^verbatim>\<open>set_query(i)\<close> with \<open>i\<close> at
  or past the length of the parsed query both throw \<^verbatim>\<open>std::out_of_range\<close> and leave the
  instance as the lazy parse left it: what a caller can see, the raw string and
  \<^verbatim>\<open>m_built\<close> are as before the call, and an instance whose fields were already fresh is
  unchanged as a whole. With \<open>i\<close> below the length both return entry \<open>i\<close>.
\<close>

theorem query_index_bounds:
  assumes "parse_url u = (Inr (), u')"
  shows "(length (m_query u') \<le> i \<longrightarrow>
            query_at i u = (Inl (out_of_range (''Invalid Url query index ('' @ to_string i @ '')'')), u')
            \<and> set_query_at i u = (Inl (out_of_range (''Invalid Url query index ('' @ to_string i @ '')'')), u')
            \<and> visible_state u' = visible_state u \<and> m_built u' = m_built u \<and> m_url u' = m_url u
            \<and> (m_parse u \<longrightarrow> u' = u))
       \<and> (i < length (m_query u') \<longrightarrow>
            fst (query_at i u) = Inr (m_query u' ! i) \<and> fst (set_query_at i u) = Inr (m_query u' ! i))"
proof -
  have "m_parse u \<Longrightarrow> u' = u"
    using assms by (simp add: parse_url_fresh)
  then show ?thesis
    using assms parse_url_frame [OF assms] visible_state_after_parse [OF assms]
    by (auto simp: query_at_def set_query_at_def after_parse_url_ok)
qed

theorem query_index_bounds_witness:
  "parse_url url_a1_parsed = (Inr (), url_a1_parsed)
     \<and> query_at 1 url_a1_parsed = (Inl (out_of_range ''Invalid Url query index (1)''), url_a1_parsed)
     \<and> set_query_at 1 url_a1_parsed = (Inl (out_of_range ''Invalid Url query index (1)''), url_a1_parsed)
     \<and> parse_url url_a1 = (Inr (), url_a1_parsed)
     \<and> query_at 1 url_a1 = (Inl (out_of_range ''Invalid Url query index (1)''), url_a1_parsed)
     \<and> set_query_at 1 url_a1 = (Inl (out_of_range ''Invalid Url query index (1)''), url_a1_parsed)
     \<and> visible_state url_a1_parsed = visible_state url_a1
     \<and> m_built url_a1_parsed = m_built url_a1
     \<and> fst (query_at 0 url_a1) = Inr (KeyVal_kv ''a'' ''1'')
     \<and> fst (set_query_at 0 url_a1) = Inr (KeyVal_kv ''a'' ''1'')"
proof -
  have out: "length (m_query url_a1_parsed) \<le> 1" and inside: "0 < length (m_query url_a1_parsed)"
    and entry: "m_query url_a1_parsed ! 0 = KeyVal_kv ''a'' ''1''"
    by (simp_all add: url_a1_parsed_def)
  have msg: "''Invalid Url query index ('' @ to_string 1 @ '')'' = ''Invalid Url query index (1)''"
    unfolding to_string_1 by simp
  from query_index_bounds [OF parse_url_a1_parsed, of 1] out
  have a: "query_at 1 url_a1_parsed
        = (Inl (out_of_range (''Invalid Url query index ('' @ to_string 1 @ '')'')), url_a1_parsed)
      \<and> set_query_at 1 url_a1_parsed
        = (Inl (out_of_range (''Invalid Url query index ('' @ to_string 1 @ '')'')), url_a1_parsed)"
    by blast
  from query_index_bounds [OF parse_url_a1, of 1] out
  have b: "query_at 1 url_a1
        = (Inl (out_of_range (''Invalid Url query index ('' @ to_string 1 @ '')'')), url_a1_parsed)
      \<and> set_query_at 1 url_a1
        = (Inl (out_of_range (''Invalid Url query index ('' @ to_string 1 @ '')'')), url_a1_parsed)
      \<and> visible_state url_a1_parsed = visible_state url_a1
      \<and> m_built url_a1_parsed = m_built url_a1"
    by blast
  from query_index_bounds [OF parse_url_a1, of 0] inside
  have c: "fst (query_at 0 url_a1) = Inr (m_query url_a1_parsed ! 0)
      \<and> fst (set_query_at 0 url_a1) = Inr (m_query url_a1_parsed ! 0)"
    by blast
  from a b c parse_url_a1 parse_url_a1_parsed show ?thesis
    unfolding msg entry by blast
qed

section \<open>Ports\<close>

subsection \<open>Decimal numerals\<close>

lemma of_char_digit_char: "d < 10 \<Longrightarrow> (of_char (digit_char d) :: nat) = 48 + d"
  by (simp add: digit_char_def)

lemma is_digit_digit_char: "d < 10 \<Longrightarrow> is_digit (digit_char d)"
  by (simp add: is_digit_def of_char_digit_char)

lemma digit_char_of_digit: "is_digit c \<Longrightarrow> digit_char (of_char c - 48) = c"
  by (simp add: is_digit_def digit_char_def)

lemma digit_char_0: "digit_char 0 = CHR ''0''"
  by (simp add: digit_char_def char_of_def bit_Suc_0_iff)

lemma zeros_digits: "list_all is_digit (replicate z (CHR ''0''))"
  by (induction z) (simp_all add: is_digit_def)

lemma to_string_digits: "list_all is_digit (to_string n)"
proof (induction n rule: to_string.induct)
  case (1 n)
  show ?case
  proof (cases "n < 10")
    case True
    then show ?thesis by (simp add: to_string.simps [of n] is_digit_digit_char)
  next
    case False
    with 1 show ?thesis by (simp add: to_string.simps [of n] is_digit_digit_char)
  qed
qed

lemma dec_value_snoc: "dec_value (s @ [c]) = 10 * dec_value s + (of_char c - 48)"
  by (simp add: dec_value_def)

text \<open>\<open>dec_value\<close> reads what \<^verbatim>\<open>std::to_string\<close> prints.\<close>

lemma dec_value_to_string: "dec_value (to_string n) = n"
proof (induction n rule: to_string.induct)
  case (1 n)
  show ?case
  proof (cases "n < 10")
    case True
    then show ?thesis
      by (simp add: to_string.simps [of n] dec_value_def of_char_digit_char)
  next
    case False
    with 1 show ?thesis
      by (simp add: to_string.simps [of n] dec_value_snoc of_char_digit_char)
  qed
qed

lemma dec_value_leading_zeros: "dec_value (replicate z (CHR ''0'') @ s) = dec_value s"
  by (induction z) (simp_all add: dec_value_def)

text \<open>A non-empty digit string is the decimal numeral of its value, after leading zeros.\<close>

lemma digits_are_numeral:
  "list_all is_digit p \<Longrightarrow> p \<noteq> [] \<Longrightarrow> \<exists>z. p = replicate z (CHR ''0'') @ to_string (dec_value p)"
proof (induction p rule: rev_induct)
  case Nil
  then show ?case by simp
next
  case (snoc d q)
  then have d: "is_digit d" and q: "list_all is_digit q"
    by simp_all
  from d have lt: "(of_char d :: nat) - 48 < 10"
    by (auto simp: is_digit_def)
  show ?case
  proof (cases "q = []")
    case True
    with d lt show ?thesis
      by (simp add: dec_value_def to_string.simps [of "of_char d - 48"] digit_char_of_digit)
  next
    case False
    with snoc.IH q obtain z where z: "q = replicate z (CHR ''0'') @ to_string (dec_value q)"
      by blast
    show ?thesis
    proof (cases "dec_value q = 0")
      case True
      with z have zeros: "q = replicate (Suc z) (CHR ''0'')"
        by (simp add: to_string.simps [of 0] digit_char_0 replicate_append_same)
      have "dec_value (q @ [d]) = of_char d - 48"
        using True by (simp add: dec_value_snoc)
      moreover have "to_string (of_char d - 48) = [d]"
        using d lt by (simp add: to_string.simps [of "of_char d - 48"] digit_char_of_digit)
      ultimately have "q @ [d] = replicate (Suc z) (CHR ''0'') @ to_string (dec_value (q @ [d]))"
        using zeros by (simp only:)
      then show ?thesis by blast
    next
      case False
      then have "to_string (dec_value (q @ [d])) = to_string (dec_value q) @ [d]"
        using d lt
        by (simp add: dec_value_snoc to_string.simps [of "10 * dec_value q + (of_char d - 48)"]
            digit_char_of_digit)
      with z have "q @ [d] = replicate z (CHR ''0'') @ to_string (dec_value (q @ [d]))"
        by simp
      then show ?thesis by blast
    qed
  qed
qed

lemma valid_port_iff_numeral:
  "valid_port p \<longleftrightarrow> p = [] \<or> (\<exists>n z. n \<le> 65535 \<and> p = replicate z (CHR ''0'') @ to_string n)"
proof
  assume "valid_port p"
  then show "p = [] \<or> (\<exists>n z. n \<le> 65535 \<and> p = replicate z (CHR ''0'') @ to_string n)"
    using digits_are_numeral [of p] by (auto simp: valid_port_def)
next
  assume "p = [] \<or> (\<exists>n z. n \<le> 65535 \<and> p = replicate z (CHR ''0'') @ to_string n)"
  then show "valid_port p"
    by (auto simp: valid_port_def dec_value_leading_zeros dec_value_to_string to_string_digits
        zeros_digits)
qed

lemma unat_u16_le: "unat (num :: 16 word) \<le> 65535"
  using unsigned_less [of num, where 'a = nat] by simp

lemma valid_port_to_string_u16: "valid_port (to_string (unat (num :: 16 word)))"
  by (simp add: valid_port_def to_string_digits dec_value_to_string unat_u16_le)

lemma to_string_8080: "to_string 8080 = ''8080''"
  by (simp add: to_string.simps digit_char_def char_of_def bit_Suc_0_iff)

lemma not_valid_port_70000: "\<not> valid_port ''70000''"
  by (simp add: valid_port_def dec_value_def)

subsection \<open>A port of 70000 in an authority\<close>

lemma takeWhile_neq_stop: "d \<notin> set xs \<Longrightarrow> takeWhile (\<lambda>c. c \<noteq> d) (xs @ d # ys) = xs"
  by (induction xs) auto

lemma dropWhile_neq_stop: "d \<notin> set xs \<Longrightarrow> dropWhile (\<lambda>c. c \<noteq> d) (xs @ d # ys) = d # ys"
  by (induction xs) auto

lemma split_last_append:
  "d \<notin> set b \<Longrightarrow> split_last d (a @ d # b) = Some (a, b)"
  by (simp add: split_last_def takeWhile_neq_stop dropWhile_neq_stop)

lemma split_host_port_70000:
  "snd (split_host_port (h @ '':70000'')) = ''70000'' \<or>
   (fst (split_host_port (h @ '':70000'')) = h @ '':70000'' \<and> h \<noteq> [] \<and> hd h = CHR ''['')"
proof (cases "h \<noteq> [] \<and> hd h = CHR ''[''")
  case False
  then have "\<not> (h @ '':70000'' \<noteq> [] \<and> hd (h @ '':70000'') = CHR ''['')"
    by (cases h) auto
  then show ?thesis
    by (simp add: split_host_port_def split_last_append [of "CHR '':''" "''70000''" h, simplified])
next
  case True
  then have br: "h @ '':70000'' \<noteq> [] \<and> hd (h @ '':70000'') = CHR ''[''"
    by (cases h) auto
  show ?thesis
  proof (cases "CHR '']'' \<in> set h")
    case True
    then have "dropWhile (\<lambda>c. c \<noteq> CHR '']'') (h @ '':70000'')
        = dropWhile (\<lambda>c. c \<noteq> CHR '']'') h @ '':70000''"
      by (simp add: dropWhile_append1)
    then show ?thesis
      using br
      by (simp add: split_host_port_def
          split_last_append [of "CHR '':''" "''70000''" "dropWhile (\<lambda>c. c \<noteq> CHR '']'') h", simplified])
  next
    case False
    then have "dropWhile (\<lambda>c. c \<noteq> CHR '']'') (h @ '':70000'') = []"
      by auto
    then show ?thesis
      using br True by (simp add: split_host_port_def split_last_def)
  qed
qed

lemma parse_host_unclosed:
  "h \<noteq> [] \<Longrightarrow> hd h = CHR ''['' \<Longrightarrow> parse_host (h @ '':70000'') = Inl (parse_error ''host'')"
  by (cases h) (auto simp: parse_host_def)

lemma parse_host_port_70000:
  "isl (case parse_host (fst (split_host_port (h @ '':70000''))) of
          Inl e \<Rightarrow> Inl e
        | Inr (hn, ipv) \<Rightarrow>
            (if valid_port (snd (split_host_port (h @ '':70000'')))
             then Inr (user, hn, ipv, snd (split_host_port (h @ '':70000'')))
             else Inl (parse_error ''port'')))"
  using split_host_port_70000 [of h]
  by (auto simp: not_valid_port_70000 parse_host_unclosed split: sum.splits)

text \<open>Whatever precedes it, an authority that ends in \<^verbatim>\<open>:70000\<close> does not parse.\<close>

lemma parse_authority_port_70000: "isl (parse_authority (a @ '':70000''))"
proof (cases "CHR ''@'' \<in> set a")
  case False
  then have "split_last (CHR ''@'') (a @ '':70000'') = None"
    by (simp add: split_last_def)
  then show ?thesis
    using parse_host_port_70000 [of a "[]"]
    by (simp add: parse_authority_def)
next
  case True
  then obtain x y where a: "a = x @ CHR ''@'' # y" and y: "CHR ''@'' \<notin> set y"
    by (meson split_list_last)
  then have "split_last (CHR ''@'') (a @ '':70000'') = Some (x, y @ '':70000'')"
    using split_last_append [of "CHR ''@''" "y @ '':70000''" x] by simp
  then show ?thesis
    using parse_host_port_70000 [of y]
    by (auto simp: parse_authority_def split: option.splits)
qed

lemma parse_fields_port_70000:
  "parse_fields ''http://example.com:70000/'' = Inl (parse_error ''port'')"
  by (simp add: parse_fields_def split_scheme_def scheme_end_def authority_end_def path_end_def
      is_scheme_def is_alpha_def
      split_authority_def parse_authority_def split_last_def split_host_port_def
      parse_host_def is_ipv4_def not_valid_port_70000)

text \<open>
  Claim C10. \<^verbatim>\<open>port(std::uint16_t num)\<close> is the string setter applied to the decimal
  digits of \<open>num\<close>; those digits are all decimal and their value, which is \<open>num\<close>, is at
  most 65535, so they are a valid port; and when the lazy parse succeeds the call succeeds
  and stores the digits: the port failure of the string setter cannot occur.
\<close>

theorem port_u16_always_valid:
  assumes "parse_url u = (Inr (), u')"
  shows "port_u16 num u = port_str (to_string (unat num)) u
     \<and> list_all is_digit (to_string (unat num))
     \<and> dec_value (to_string (unat num)) = unat num
     \<and> unat num \<le> 65535
     \<and> valid_port (to_string (unat num))
     \<and> port_u16 num u = (Inr (), u'\<lparr>m_port := to_string (unat num), m_built := False\<rparr>)"
  using assms
  by (simp add: port_u16_def port_str_def after_parse_url_ok valid_port_to_string_u16
      to_string_digits dec_value_to_string unat_u16_le)

theorem port_u16_always_valid_witness:
  "parse_url Url_default = (Inr (), Url_default)
     \<and> port_u16 8080 Url_default = (Inr (), Url_default\<lparr>m_port := ''8080'', m_built := False\<rparr>)"
proof -
  have h: "parse_url Url_default = (Inr (), Url_default)"
    by (simp add: parse_url_fresh Url_default_def)
  have t: "to_string (unat (8080 :: 16 word)) = ''8080''"
    by (simp add: to_string_8080)
  from port_u16_always_valid [OF h, of 8080]
  have "port_u16 8080 Url_default
      = (Inr (), Url_default\<lparr>m_port := to_string (unat (8080 :: 16 word)), m_built := False\<rparr>)"
    by blast
  then show ?thesis
    unfolding t using h by blast
qed

section \<open>Query order\<close>

lemma parse_query_aba:
  "parse_query ''a=1&b=&a=2''
     = Some [KeyVal_kv ''a'' ''1'', KeyVal_kv ''b'' [], KeyVal_kv ''a'' ''2'']"
  by (simp add: parse_query_def parse_token_def)

lemma build_query_aba:
  "build_query [KeyVal_kv ''a'' ''1'', KeyVal_kv ''b'' [], KeyVal_kv ''a'' ''2''] = ''a=1&b&a=2''"
  by (simp add: build_query_def build_token_def KeyVal_kv_def encode_def encode_char_def
      query_allowed_def unreserved_def is_alpha_def is_digit_def)

lemma parse_query_rebuilt:
  "parse_query ''a=1&b&a=2''
     = Some [KeyVal_kv ''a'' ''1'', KeyVal_kv ''b'' [], KeyVal_kv ''a'' ''2'']"
  by (simp add: parse_query_def parse_token_def)

lemma parse_fields_aba:
  "parse_fields ''http://h/?a=1&b=&a=2'' = Inr \<lparr>f_scheme = ''http'', f_user = [], f_host = ''h'',
     f_ip_v = 0, f_port = [], f_path = ''/'',
     f_query = [KeyVal_kv ''a'' ''1'', KeyVal_kv ''b'' [], KeyVal_kv ''a'' ''2''],
     f_fragment = []\<rparr>"
  by (simp add: parse_fields_def split_scheme_def scheme_end_def authority_end_def path_end_def
      is_scheme_def is_alpha_def
      split_authority_def parse_authority_def split_last_def split_host_port_def
      parse_host_def is_ipv4_def valid_port_def split_query_def split_fragment_def
      parse_query_aba)

lemma build_fields_aba:
  "build_fields \<lparr>f_scheme = ''http'', f_user = [], f_host = ''h'',
     f_ip_v = 0, f_port = [], f_path = ''/'',
     f_query = [KeyVal_kv ''a'' ''1'', KeyVal_kv ''b'' [], KeyVal_kv ''a'' ''2''],
     f_fragment = []\<rparr> = Inr ''http://h/?a=1&b&a=2''"
  by (simp add: build_fields_def build_query_aba dec_value_def encode_def encode_char_def
      host_allowed_def path_allowed_def unreserved_def is_alpha_def is_digit_def)

text \<open>
  Claim C8. Parsing the query text \<^verbatim>\<open>a=1&b=&a=2\<close> gives exactly the sequence
  \<open>[(a, 1), (b, ), (a, 2)]\<close>, in this order and with the key \<open>a\<close> twice, and the getter
  \<^verbatim>\<open>query()\<close> reports it for a URL with this query. Serialising the sequence gives the
  tokens of the keys \<open>a\<close>, \<open>b\<close>, \<open>a\<close> in the same order (the empty value of \<open>b\<close> is written
  without \<^verbatim>\<open>=\<close>), and parsing the serialised text gives the same sequence again.
\<close>

theorem query_order_and_duplicates_preserved:
  "parse_query ''a=1&b=&a=2''
       = Some [KeyVal_kv ''a'' ''1'', KeyVal_kv ''b'' [], KeyVal_kv ''a'' ''2'']
     \<and> fst (query (assign_string ''http://h/?a=1&b=&a=2'' Url_default))
       = Inr [KeyVal_kv ''a'' ''1'', KeyVal_kv ''b'' [], KeyVal_kv ''a'' ''2'']
     \<and> build_query [KeyVal_kv ''a'' ''1'', KeyVal_kv ''b'' [], KeyVal_kv ''a'' ''2''] = ''a=1&b&a=2''
     \<and> map (takeWhile (\<lambda>c. c \<noteq> CHR ''=''))
           (split_on (CHR ''&'')
             (build_query [KeyVal_kv ''a'' ''1'', KeyVal_kv ''b'' [], KeyVal_kv ''a'' ''2'']))
       = [''a'', ''b'', ''a'']
     \<and> parse_query (build_query [KeyVal_kv ''a'' ''1'', KeyVal_kv ''b'' [], KeyVal_kv ''a'' ''2''])
       = Some [KeyVal_kv ''a'' ''1'', KeyVal_kv ''b'' [], KeyVal_kv ''a'' ''2'']
     \<and> fst (toString (snd (set_query_all (assign_string ''http://h/?a=1&b=&a=2'' Url_default))))
       = Inr ''http://h/?a=1&b&a=2''"
proof -
  have parsed: "parse_url (assign_string ''http://h/?a=1&b=&a=2'' Url_default)
      = (Inr (), \<lparr>m_scheme = ''http'', m_user = [], m_host = ''h'', m_port = [], m_path = ''/'',
           m_query = [KeyVal_kv ''a'' ''1'', KeyVal_kv ''b'' [], KeyVal_kv ''a'' ''2''],
           m_fragment = [], m_url = ''http://h/?a=1&b=&a=2'', m_parse = True, m_built = True,
           m_ip_v = 0\<rparr>)"
    by (simp add: parse_url_def assign_string_def parse_def Url_default_def parse_fields_aba
        store_fields_def)
  have getter: "fst (query (assign_string ''http://h/?a=1&b=&a=2'' Url_default))
      = Inr [KeyVal_kv ''a'' ''1'', KeyVal_kv ''b'' [], KeyVal_kv ''a'' ''2'']"
    by (simp add: query_def after_parse_url_ok [OF parsed])
  have serialised:
    "fst (toString (snd (set_query_all (assign_string ''http://h/?a=1&b=&a=2'' Url_default))))
      = Inr ''http://h/?a=1&b&a=2''"
    by (simp add: set_query_all_def after_parse_url_ok [OF parsed] toString_def toString_with_def
        build_url_def parse_url_def fields_of_def build_fields_aba)
  show ?thesis
    unfolding build_query_aba
    using parse_query_aba parse_query_rebuilt getter serialised by simp
qed

section \<open>Round trip of the parser and the builder\<close>

subsection \<open>Percent-encoding and decoding\<close>

lemma hex_val_hex_char: "k < 16 \<Longrightarrow> hex_val (hex_char k) = k"
  by (simp add: hex_val_def hex_char_def is_digit_def)

lemma is_hex_hex_char: "k < 16 \<Longrightarrow> is_hex (hex_char k)"
  by (simp add: is_hex_def hex_char_def is_digit_def)

lemma of_char_lt_256: "(of_char c :: nat) < 256"
  by (metis of_char_mod_256 mod_less_divisor zero_less_numeral)

lemma of_char_div_16: "(of_char c :: nat) div 16 < 16"
  using of_char_lt_256 [of c] by arith

lemma char_of_hex_pair:
  "char_of (hex_val (hex_char ((of_char c :: nat) div 16)) * 16
      + hex_val (hex_char ((of_char c :: nat) mod 16))) = c"
  by (simp add: hex_val_hex_char of_char_div_16)

lemma encode_Nil [simp]: "encode allowed [] = []"
  by (simp add: encode_def)

lemma encode_Cons: "encode allowed (c # s) = encode_char allowed c @ encode allowed s"
  by (simp add: encode_def)

lemma encode_char_not_Nil: "encode_char allowed c \<noteq> []"
  by (simp add: encode_char_def)

lemma encode_eq_Nil [simp]: "encode allowed s = [] \<longleftrightarrow> s = []"
  by (cases s) (simp_all add: encode_Cons encode_char_not_Nil)

lemma decode_encode_char:
  assumes "\<not> allowed (CHR ''%'')"
  shows "decode (encode_char allowed c @ rest) = map_option ((#) c) (decode rest)"
proof (cases "allowed c")
  case True
  with assms have "c \<noteq> CHR ''%''" by auto
  with True show ?thesis by (simp add: encode_char_def)
next
  case False
  then show ?thesis
    by (simp add: encode_char_def is_hex_hex_char char_of_hex_pair of_char_div_16)
qed

text \<open>Decoding undoes encoding, for every allow-list that leaves out the percent sign.\<close>

lemma decode_encode: "\<not> allowed (CHR ''%'') \<Longrightarrow> decode (encode allowed s) = Some s"
  by (induction s) (simp_all add: encode_Cons decode_encode_char)

lemma encode_char_mem:
  "d \<in> set (encode_char allowed c) \<Longrightarrow> \<not> is_hex d \<Longrightarrow> d \<noteq> CHR ''%'' \<Longrightarrow> d = c \<and> allowed c"
proof -
  assume d: "d \<in> set (encode_char allowed c)" and nh: "\<not> is_hex d" and np: "d \<noteq> CHR ''%''"
  have "is_hex (hex_char ((of_char c :: nat) div 16))"
    and "is_hex (hex_char ((of_char c :: nat) mod 16))"
    by (simp_all add: is_hex_hex_char of_char_div_16)
  with d nh np show ?thesis
    by (auto simp: encode_char_def split: if_splits)
qed

text \<open>A character that is neither a hex digit nor the percent sign occurs in an encoded
  text only if it occurs in the source and is allowed.\<close>

lemma encode_mem:
  "d \<in> set (encode allowed s) \<Longrightarrow> \<not> is_hex d \<Longrightarrow> d \<noteq> CHR ''%'' \<Longrightarrow> d \<in> set s \<and> allowed d"
  by (induction s) (auto simp: encode_Cons dest: encode_char_mem)

lemma encode_id: "list_all allowed s \<Longrightarrow> encode allowed s = s"
  by (induction s) (simp_all add: encode_Cons encode_char_def)

lemma encode_without_percent:
  "CHR ''%'' \<notin> set (encode allowed s) \<Longrightarrow> encode allowed s = s"
  by (induction s) (auto simp: encode_Cons encode_char_def split: if_splits)

lemma hd_encode:
  "s \<noteq> [] \<Longrightarrow> hd (encode allowed s) = (if allowed (hd s) then hd s else CHR ''%'')"
  by (cases s) (simp_all add: encode_Cons encode_char_def)

subsection \<open>Splitting\<close>

lemma takeWhile_stop:
  "list_all P xs \<Longrightarrow> ys = [] \<or> \<not> P (hd ys) \<Longrightarrow> takeWhile P (xs @ ys) = xs"
  by (induction xs) (auto simp: takeWhile_eq_Nil_iff)

lemma dropWhile_stop:
  "list_all P xs \<Longrightarrow> ys = [] \<or> \<not> P (hd ys) \<Longrightarrow> dropWhile P (xs @ ys) = ys"
  by (induction xs) (auto simp: dropWhile_eq_self_iff)

lemma split_on_not_Nil [simp]: "split_on d s \<noteq> []"
  by (induction s) (auto split: list.splits)

lemma split_on_no_sep: "d \<notin> set t \<Longrightarrow> split_on d t = [t]"
  by (induction t) auto

lemma split_on_append: "d \<notin> set t \<Longrightarrow> split_on d (t @ d # rest) = t # split_on d rest"
  by (induction t) (auto split: list.splits)

lemma split_on_join:
  "ts \<noteq> [] \<Longrightarrow> list_all (\<lambda>t. d \<notin> set t) ts \<Longrightarrow> split_on d (join d ts) = ts"
proof (induction ts rule: join.induct)
  case (1 d)
  then show ?case by simp
next
  case (2 d t)
  then show ?case by (simp add: split_on_no_sep)
next
  case (3 d t v va)
  then show ?case by (simp add: split_on_append)
qed

lemma split_on_chars:
  "c \<in> set s \<Longrightarrow> c = d \<or> (\<exists>t \<in> set (split_on d s). c \<in> set t)"
proof (induction s)
  case Nil
  then show ?case by simp
next
  case (Cons x s)
  obtain t ts where ts: "split_on d s = t # ts"
    by (cases "split_on d s") auto
  show ?case
  proof (cases "x = d")
    case True
    with Cons ts show ?thesis by auto
  next
    case False
    with Cons ts show ?thesis by auto
  qed
qed

subsection \<open>What the allow-lists leave out\<close>

lemma not_hex_delims:
  "\<not> is_hex (CHR ''/'')" "\<not> is_hex (CHR ''?'')" "\<not> is_hex (CHR ''#'')" "\<not> is_hex (CHR ''@'')"
  "\<not> is_hex (CHR '':'')" "\<not> is_hex (CHR ''&'')" "\<not> is_hex (CHR ''='')" "\<not> is_hex (CHR ''['')"
  "\<not> is_hex (CHR '']'')"
  by (simp_all add: is_hex_def is_digit_def)

lemma user_allowed_excludes:
  "\<not> user_allowed (CHR ''%'')" "\<not> user_allowed (CHR ''/'')" "\<not> user_allowed (CHR ''?'')"
  "\<not> user_allowed (CHR ''#'')" "\<not> user_allowed (CHR ''@'')"
  by (simp_all add: user_allowed_def unreserved_def is_alpha_def is_digit_def sub_delims_def)

lemma host_allowed_excludes:
  "\<not> host_allowed (CHR ''%'')" "\<not> host_allowed (CHR ''/'')" "\<not> host_allowed (CHR ''?'')"
  "\<not> host_allowed (CHR ''#'')" "\<not> host_allowed (CHR ''@'')" "\<not> host_allowed (CHR ''['')"
  "\<not> host_allowed (CHR '']'')"
  by (simp_all add: host_allowed_def unreserved_def is_alpha_def is_digit_def sub_delims_def)

lemma path_allowed_excludes:
  "\<not> path_allowed (CHR ''%'')" "\<not> path_allowed (CHR ''?'')" "\<not> path_allowed (CHR ''#'')"
  by (simp_all add: path_allowed_def unreserved_def is_alpha_def is_digit_def sub_delims_def)

lemma query_allowed_excludes:
  "\<not> query_allowed (CHR ''%'')" "\<not> query_allowed (CHR ''#'')" "\<not> query_allowed (CHR ''&'')"
  "\<not> query_allowed (CHR ''='')"
  by (simp_all add: query_allowed_def unreserved_def is_alpha_def is_digit_def sub_delims_def)

lemma fragment_allowed_excludes: "\<not> fragment_allowed (CHR ''%'')"
  by (simp add: fragment_allowed_def unreserved_def is_alpha_def is_digit_def sub_delims_def)

lemma encode_excludes:
  "\<not> allowed d \<Longrightarrow> \<not> is_hex d \<Longrightarrow> d \<noteq> CHR ''%'' \<Longrightarrow> d \<notin> set (encode allowed s)"
  using encode_mem [of d allowed s] by blast

lemma encode_user_chars:
  "list_all (\<lambda>c. \<not> authority_end c) (encode user_allowed s)" "CHR ''@'' \<notin> set (encode user_allowed s)"
  using encode_excludes [of user_allowed _ s]
  by (auto simp: list_all_iff user_allowed_excludes not_hex_delims delim_defs)

lemma encode_host_chars:
  "list_all (\<lambda>c. \<not> authority_end c) (encode host_allowed s)" "CHR ''@'' \<notin> set (encode host_allowed s)"
  "CHR '']'' \<notin> set (encode host_allowed s)"
  using encode_excludes [of host_allowed _ s]
  by (auto simp: list_all_iff host_allowed_excludes not_hex_delims delim_defs)

lemma encode_host_no_bracket: "encode host_allowed s = [] \<or> hd (encode host_allowed s) \<noteq> CHR ''[''"
  by (cases "s = []") (auto simp: hd_encode host_allowed_excludes)

lemma encode_host_colon: "CHR '':'' \<in> set (encode host_allowed s) \<Longrightarrow> CHR '':'' \<in> set s"
  using encode_mem [of "CHR '':''" host_allowed s] by (simp add: not_hex_delims)

lemma encode_path_chars: "list_all (\<lambda>c. \<not> path_end c) (encode path_allowed s)"
  using encode_excludes [of path_allowed _ s]
  by (auto simp: list_all_iff path_allowed_excludes not_hex_delims delim_defs)

lemma encode_query_chars:
  "CHR ''#'' \<notin> set (encode query_allowed s)" "CHR ''&'' \<notin> set (encode query_allowed s)"
  "CHR ''='' \<notin> set (encode query_allowed s)"
  using encode_excludes [of query_allowed _ s]
  by (auto simp: query_allowed_excludes not_hex_delims)

subsection \<open>The query\<close>

lemma KeyVal_kv_fields: "KeyVal_kv (m_key kv) (m_val kv) = kv"
  by (cases kv) (simp add: KeyVal_kv_def)

lemma build_token_chars:
  "CHR ''#'' \<notin> set (build_token kv)" "CHR ''&'' \<notin> set (build_token kv)"
  by (simp_all add: build_token_def encode_query_chars)

lemma parse_token_parts:
  assumes "list_all (\<lambda>c. c \<noteq> CHR ''='') k"
  shows "parse_token (k @ (if v = [] then [] else CHR ''='' # v))
     = (case decode k of
          None \<Rightarrow> None
        | Some k' \<Rightarrow> (case decode v of None \<Rightarrow> None | Some v' \<Rightarrow> Some (KeyVal_kv k' v')))"
proof (cases "v = []")
  case True
  have tk: "takeWhile (\<lambda>c. c \<noteq> CHR ''='') k = k" "dropWhile (\<lambda>c. c \<noteq> CHR ''='') k = []"
    using assms by (simp_all add: list_all_iff)
  show ?thesis
    by (simp add: parse_token_def True tk cong: option.case_cong)
next
  case False
  with assms show ?thesis
    by (simp add: parse_token_def takeWhile_stop dropWhile_stop cong: option.case_cong)
qed

lemma parse_token_build_token: "parse_token (build_token kv) = Some kv"
proof -
  have "list_all (\<lambda>c. c \<noteq> CHR ''='') (encode query_allowed (m_key kv))"
    using encode_query_chars(3) [of "m_key kv"] by (auto simp: list_all_iff)
  from parse_token_parts [OF this, of "encode query_allowed (m_val kv)"]
  have "parse_token (build_token kv) = Some (KeyVal_kv (m_key kv) (m_val kv))"
    by (cases "m_val kv = []")
      (simp_all add: build_token_def decode_encode query_allowed_excludes)
  then show ?thesis
    by (simp add: KeyVal_kv_fields)
qed

lemma those_map_Some: "those (map (\<lambda>x. Some (f x)) xs) = Some (map f xs)"
  by (induction xs) simp_all

lemma parse_query_build_query: "q \<noteq> [] \<Longrightarrow> parse_query (build_query q) = Some q"
proof -
  assume q: "q \<noteq> []"
  have "list_all (\<lambda>t. CHR ''&'' \<notin> set t) (map build_token q)"
    by (simp add: list_all_iff build_token_chars)
  with q have "split_on (CHR ''&'') (build_query q) = map build_token q"
    by (simp add: build_query_def split_on_join)
  then have "parse_query (build_query q) = those (map (\<lambda>kv. Some kv) q)"
    by (simp add: parse_query_def parse_token_build_token comp_def)
  then show ?thesis
    using those_map_Some [of "\<lambda>kv. kv" q] by simp
qed

lemma join_chars: "c \<in> set (join d ts) \<Longrightarrow> c = d \<or> (\<exists>t \<in> set ts. c \<in> set t)"
  by (induction d ts rule: join.induct) auto

lemma build_query_no_hash: "list_all (\<lambda>c. c \<noteq> CHR ''#'') (build_query q)"
proof -
  have "CHR ''#'' \<notin> set (build_query q)"
    using join_chars [of "CHR ''#''" "CHR ''&''" "map build_token q"]
    by (auto simp: build_query_def build_token_chars)
  then show ?thesis
    by (auto simp: list_all_iff)
qed

subsection \<open>Path, query and fragment of a built text\<close>

lemma path_of_built:
  assumes "qf = [] \<or> path_end (hd qf)"
  shows "takeWhile (\<lambda>c. \<not> path_end c) (encode path_allowed p @ qf) = encode path_allowed p"
    and "dropWhile (\<lambda>c. \<not> path_end c) (encode path_allowed p @ qf) = qf"
  using assms takeWhile_stop [OF encode_path_chars, of qf p] dropWhile_stop [OF encode_path_chars, of qf p]
  by auto

lemma query_of_built:
  assumes "fr = [] \<or> hd fr = CHR ''#''"
  shows "split_query ((if q \<noteq> [] then ''?'' @ build_query q else []) @ fr)
     = (if q \<noteq> [] then Some (build_query q) else None, fr)"
proof (cases "q = []")
  case True
  with assms show ?thesis
    by (cases fr) (auto simp: split_query_def)
next
  case False
  have "takeWhile (\<lambda>c. c \<noteq> CHR ''#'') (build_query q @ fr) = build_query q"
    and "dropWhile (\<lambda>c. c \<noteq> CHR ''#'') (build_query q @ fr) = fr"
    using assms takeWhile_stop [OF build_query_no_hash, of fr q]
      dropWhile_stop [OF build_query_no_hash, of fr q]
    by auto
  with False show ?thesis
    by (simp add: split_query_def)
qed

lemma fragment_of_built:
  "split_fragment (if frag \<noteq> [] then ''#'' @ encode fragment_allowed frag else [])
     = encode fragment_allowed frag"
  by (simp add: split_fragment_def)

lemma query_fragment_start:
  "(if q \<noteq> [] then ''?'' @ build_query q else [])
      @ (if frag \<noteq> [] then ''#'' @ encode fragment_allowed frag else []) = []
   \<or> path_end (hd ((if q \<noteq> [] then ''?'' @ build_query q else [])
      @ (if frag \<noteq> [] then ''#'' @ encode fragment_allowed frag else [])))"
  by (simp add: path_end_def)

lemma fragment_start:
  "(if frag \<noteq> [] then ''#'' @ encode fragment_allowed frag else []) = []
   \<or> hd (if frag \<noteq> [] then ''#'' @ encode fragment_allowed frag else []) = CHR ''#''"
  by simp

subsection \<open>Scheme of a built text\<close>

lemma is_scheme_chars: "is_scheme s \<Longrightarrow> list_all (\<lambda>c. \<not> scheme_end c) s"
proof (cases s)
  case Nil
  then show ?thesis by simp
next
  case (Cons c t)
  assume "is_scheme s"
  with Cons have "is_alpha c" and "list_all (\<lambda>c. is_alpha c \<or> is_digit c \<or> c \<in> set ''+-.'') t"
    by (simp_all add: is_scheme_def)
  then have "\<not> scheme_end c" and "list_all (\<lambda>c. \<not> scheme_end c) t"
    by (auto simp: list_all_iff is_alpha_def is_digit_def scheme_end_def)
  with Cons show ?thesis by simp
qed

lemma split_scheme_present:
  assumes "is_scheme sch"
  shows "split_scheme (sch @ CHR '':'' # rest) = (sch, rest)"
proof -
  have "takeWhile (\<lambda>c. \<not> scheme_end c) (sch @ CHR '':'' # rest) = sch"
    and "dropWhile (\<lambda>c. \<not> scheme_end c) (sch @ CHR '':'' # rest) = CHR '':'' # rest"
    using takeWhile_stop [OF is_scheme_chars [OF assms], of "CHR '':'' # rest"]
      dropWhile_stop [OF is_scheme_chars [OF assms], of "CHR '':'' # rest"]
    by (simp_all add: scheme_end_def)
  with assms show ?thesis
    by (simp add: split_scheme_def)
qed

lemma split_scheme_absent:
  assumes none: "fst (split_scheme p) = []"
    and p: "list_all (\<lambda>c. \<not> path_end c) p"
    and qf: "qf = [] \<or> path_end (hd qf)"
  shows "split_scheme (p @ qf) = ([], p @ qf)"
proof -
  define P where "P = (\<lambda>c::char. \<not> scheme_end c)"
  have unfold: "split_scheme s =
      (case dropWhile P s of
         [] \<Rightarrow> ([], s)
       | c # r \<Rightarrow> (if c = CHR '':'' \<and> is_scheme (takeWhile P s) then (takeWhile P s, r) else ([], s)))"
    for s
    by (simp only: split_scheme_def P_def)
  from qf have stop: "qf = [] \<or> \<not> P (hd qf)"
    by (auto simp: P_def delim_defs)
  show ?thesis
  proof (cases "list_all P p")
    case True
    from dropWhile_stop [OF True stop] have d: "dropWhile P (p @ qf) = qf" .
    show ?thesis
    proof (cases qf)
      case Nil
      show ?thesis
        unfolding unfold d by (simp add: Nil)
    next
      case (Cons c r)
      with qf have "c \<noteq> CHR '':''" by (auto simp: path_end_def)
      then show ?thesis
        unfolding unfold d by (simp add: Cons)
    qed
  next
    case False
    then obtain x where x: "x \<in> set p" "\<not> P x"
      by (auto simp: list_all_iff)
    have t: "takeWhile P (p @ qf) = takeWhile P p"
      using x by (rule takeWhile_append1)
    have d: "dropWhile P (p @ qf) = dropWhile P p @ qf"
      using x by (rule dropWhile_append1)
    from x have "dropWhile P p \<noteq> []"
      by (simp only: dropWhile_eq_Nil_conv) blast
    then obtain c r where cr: "dropWhile P p = c # r"
      by (cases "dropWhile P p") auto
    have no: "\<not> (c = CHR '':'' \<and> is_scheme (takeWhile P p))"
    proof
      assume a: "c = CHR '':'' \<and> is_scheme (takeWhile P p)"
      then have "split_scheme p = (takeWhile P p, r)"
        unfolding unfold cr by simp
      with none a show False
        by (simp add: is_scheme_def)
    qed
    show ?thesis
      unfolding unfold t d cr using no by auto
  qed
qed

subsection \<open>Authority of a built text\<close>

lemma split_authority_present:
  assumes "list_all (\<lambda>c. \<not> authority_end c) a" and "t = [] \<or> authority_end (hd t)"
  shows "split_authority (''//'' @ a @ t) = (Some a, t)"
proof -
  from assms(2) have "t = [] \<or> \<not> \<not> authority_end (hd t)"
    by simp
  from takeWhile_stop [OF assms(1) this] dropWhile_stop [OF assms(1) this] show ?thesis
    by (simp add: split_authority_def)
qed

lemma split_authority_absent: "take 2 r \<noteq> ''//'' \<Longrightarrow> split_authority r = (None, r)"
  by (auto simp: split_authority_def split: list.splits)

lemma encoded_path_no_double_slash:
  assumes "take 2 p \<noteq> ''//''" and "qf = [] \<or> path_end (hd qf)"
  shows "take 2 (encode path_allowed p @ qf) \<noteq> ''//''"
proof (cases p)
  case Nil
  with assms(2) show ?thesis by (cases qf) (auto simp: path_end_def)
next
  case outer: (Cons c1 p1)
  show ?thesis
  proof (cases p1)
    case Nil
    with outer assms(2) show ?thesis
      by (cases qf) (auto simp: encode_Cons encode_char_def path_end_def)
  next
    case (Cons c2 p2)
    with outer assms(1) show ?thesis
      by (auto simp: encode_Cons encode_char_def)
  qed
qed

lemma path_allowed_slash: "path_allowed (CHR ''/'')"
  by (simp add: path_allowed_def)

lemma encoded_absolute_path:
  "p = [] \<or> hd p = CHR ''/'' \<Longrightarrow> qf = [] \<or> path_end (hd qf) \<Longrightarrow>
   encode path_allowed p @ qf = [] \<or> authority_end (hd (encode path_allowed p @ qf))"
  by (cases p) (auto simp: encode_Cons encode_char_def path_allowed_slash delim_defs)

subsection \<open>Characters of hosts and ports\<close>

lemma digit_not_delim:
  "is_digit c \<Longrightarrow> c \<noteq> CHR '':'' \<and> c \<noteq> CHR ''@'' \<and> c \<noteq> CHR ''/'' \<and> c \<noteq> CHR ''?''
     \<and> c \<noteq> CHR ''#'' \<and> c \<noteq> CHR ''['' \<and> c \<noteq> CHR '']'' \<and> c \<noteq> CHR ''%''"
  by (auto simp: is_digit_def)

lemma hex_not_delim:
  "is_hex c \<Longrightarrow> c \<noteq> CHR '':'' \<and> c \<noteq> CHR ''@'' \<and> c \<noteq> CHR ''/'' \<and> c \<noteq> CHR ''?''
     \<and> c \<noteq> CHR ''#'' \<and> c \<noteq> CHR ''['' \<and> c \<noteq> CHR '']'' \<and> c \<noteq> CHR ''%''"
  by (auto simp: is_hex_def is_digit_def)

lemma digits_no_delims:
  assumes "list_all is_digit s"
  shows "CHR ''@'' \<notin> set s" and "CHR '':'' \<notin> set s" and "list_all (\<lambda>c. \<not> authority_end c) s"
proof -
  have "c \<noteq> CHR ''@'' \<and> c \<noteq> CHR '':'' \<and> \<not> authority_end c" if "c \<in> set s" for c
    using that assms digit_not_delim [of c] by (auto simp: list_all_iff authority_end_def)
  then show "CHR ''@'' \<notin> set s" and "CHR '':'' \<notin> set s"
    and "list_all (\<lambda>c. \<not> authority_end c) s"
    by (auto simp: list_all_iff)
qed

lemma hex_colon_no_delims:
  assumes "list_all (\<lambda>c. is_hex c \<or> c = CHR '':'') s"
  shows "CHR ''@'' \<notin> set s" and "CHR '']'' \<notin> set s" and "list_all (\<lambda>c. \<not> authority_end c) s"
proof -
  have "c \<noteq> CHR ''@'' \<and> c \<noteq> CHR '']'' \<and> \<not> authority_end c" if "c \<in> set s" for c
    using that assms hex_not_delim [of c] by (auto simp: list_all_iff authority_end_def)
  then show "CHR ''@'' \<notin> set s" and "CHR '']'' \<notin> set s"
    and "list_all (\<lambda>c. \<not> authority_end c) s"
    by (auto simp: list_all_iff)
qed

lemma valid_port_digits: "valid_port pt \<Longrightarrow> list_all is_digit pt"
  by (auto simp: valid_port_def)

lemma is_ipv4_chars:
  assumes "is_ipv4 s"
  shows "list_all (\<lambda>c. is_digit c \<or> c = CHR ''.'') s"
proof -
  have "is_digit c \<or> c = CHR ''.''" if "c \<in> set s" for c
  proof -
    from split_on_chars [OF that, of "CHR ''.''"]
    consider "c = CHR ''.''" | t where "t \<in> set (split_on (CHR ''.'') s)" "c \<in> set t"
      by blast
    then show ?thesis
    proof cases
      case 1
      then show ?thesis by simp
    next
      case 2
      with assms have "is_octet t"
        by (auto simp: is_ipv4_def list_all_iff)
      with 2 show ?thesis
        by (auto simp: is_octet_def list_all_iff)
    qed
  qed
  then show ?thesis
    by (auto simp: list_all_iff)
qed

lemma is_ipv4_not_Nil: "is_ipv4 s \<Longrightarrow> s \<noteq> []"
  by (auto simp: is_ipv4_def)

lemma split_dcolon_Some: "split_dcolon s = Some (a, b) \<Longrightarrow> s = a @ ''::'' @ b"
proof (induction s arbitrary: a rule: split_dcolon.induct)
  case 1
  then show ?case by simp
next
  case (2 c cs)
  show ?case
  proof (cases cs)
    case Nil
    with 2 show ?thesis by simp
  next
    case (Cons d ds)
    show ?thesis
    proof (cases "c = CHR '':'' \<and> d = CHR '':''")
      case True
      with 2 Cons show ?thesis by auto
    next
      case False
      with 2 Cons show ?thesis by (auto split: option.splits)
    qed
  qed
qed

lemma hextets_chars:
  assumes "hextets s = Some m"
  shows "list_all (\<lambda>c. is_hex c \<or> c = CHR '':'') s"
proof -
  have "is_hex c \<or> c = CHR '':''" if "c \<in> set s" for c
  proof -
    from that have "s \<noteq> []" by auto
    with assms have parts: "list_all is_hextet (split_on (CHR '':'') s)"
      by (auto simp: hextets_def split: if_splits)
    from split_on_chars [OF that, of "CHR '':''"]
    consider "c = CHR '':''" | t where "t \<in> set (split_on (CHR '':'') s)" "c \<in> set t"
      by blast
    then show ?thesis
    proof cases
      case 1
      then show ?thesis by simp
    next
      case 2
      with parts have "is_hextet t"
        by (auto simp: list_all_iff)
      with 2 show ?thesis
        by (auto simp: is_hextet_def list_all_iff)
    qed
  qed
  then show ?thesis
    by (auto simp: list_all_iff)
qed

lemma valid_ipv6_chars:
  assumes "valid_ipv6 s"
  shows "list_all (\<lambda>c. is_hex c \<or> c = CHR '':'') s"
proof (cases "split_dcolon s")
  case None
  with assms have "hextets s = Some 8"
    by (simp add: valid_ipv6_def)
  then show ?thesis by (rule hextets_chars)
next
  case (Some ab)
  obtain a b where ab: "ab = (a, b)" by (cases ab)
  with assms Some obtain m n where "hextets a = Some m" "hextets b = Some n"
    by (auto simp: valid_ipv6_def split: option.splits)
  then have "list_all (\<lambda>c. is_hex c \<or> c = CHR '':'') a" "list_all (\<lambda>c. is_hex c \<or> c = CHR '':'') b"
    by (auto dest: hextets_chars)
  moreover from Some ab have "s = a @ ''::'' @ b"
    by (auto dest: split_dcolon_Some)
  ultimately show ?thesis by simp
qed

subsection \<open>Authority of a built text, parsed again\<close>

lemma split_host_port_bracket:
  "hp \<noteq> [] \<Longrightarrow> hd hp = CHR ''['' \<Longrightarrow>
   split_host_port hp =
     (case split_last (CHR '':'') (dropWhile (\<lambda>c. c \<noteq> CHR '']'') hp) of
        None \<Rightarrow> (hp, [])
      | Some (a, p) \<Rightarrow> (takeWhile (\<lambda>c. c \<noteq> CHR '']'') hp @ a, p))"
  by (simp add: split_host_port_def)

lemma split_host_port_no_bracket:
  "hp = [] \<or> hd hp \<noteq> CHR ''['' \<Longrightarrow>
   split_host_port hp =
     (case split_last (CHR '':'') hp of None \<Rightarrow> (hp, []) | Some (h, p) \<Rightarrow> (h, p))"
  by (auto simp: split_host_port_def)

lemma port_no_colon: "valid_port pt \<Longrightarrow> CHR '':'' \<notin> set pt"
  using digits_no_delims(2) [OF valid_port_digits] .

lemma split_host_port_ipv6:
  assumes "valid_ipv6 hn" and "valid_port pt"
  shows "split_host_port ((CHR ''['' # hn) @ CHR '']'' # (if pt \<noteq> [] then CHR '':'' # pt else []))
     = ((CHR ''['' # hn) @ [CHR '']''], pt)"
proof -
  define Pt where "Pt = (if pt \<noteq> [] then CHR '':'' # pt else [])"
  define hp where "hp = (CHR ''['' # hn) @ CHR '']'' # Pt"
  have inside: "CHR '']'' \<notin> set (CHR ''['' # hn)"
    using hex_colon_no_delims(2) [OF valid_ipv6_chars [OF assms(1)]] by simp
  have t: "takeWhile (\<lambda>c. c \<noteq> CHR '']'') hp = CHR ''['' # hn"
    unfolding hp_def using inside by (rule takeWhile_neq_stop)
  have d: "dropWhile (\<lambda>c. c \<noteq> CHR '']'') hp = CHR '']'' # Pt"
    unfolding hp_def using inside by (rule dropWhile_neq_stop)
  have br: "hp \<noteq> []" "hd hp = CHR ''[''"
    by (simp_all add: hp_def)
  have "split_host_port hp = ((CHR ''['' # hn) @ [CHR '']''], pt)"
  proof (cases "pt = []")
    case True
    then have "split_last (CHR '':'') (CHR '']'' # Pt) = None"
      by (simp add: Pt_def split_last_def)
    with True show ?thesis
      unfolding split_host_port_bracket [OF br] t d by (simp add: hp_def Pt_def)
  next
    case False
    from split_last_append [OF port_no_colon [OF assms(2)], of "[CHR '']'']"] False
    have "split_last (CHR '':'') (CHR '']'' # Pt) = Some ([CHR '']''], pt)"
      by (simp add: Pt_def)
    then show ?thesis
      unfolding split_host_port_bracket [OF br] t d by simp
  qed
  then show ?thesis
    by (simp only: hp_def Pt_def)
qed

lemma split_host_port_plain:
  assumes "h = [] \<or> hd h \<noteq> CHR ''[''" and "CHR '':'' \<notin> set h" and "valid_port pt"
  shows "split_host_port (h @ (if pt \<noteq> [] then CHR '':'' # pt else [])) = (h, pt)"
proof (cases "pt = []")
  case True
  from assms(2) have "split_last (CHR '':'') h = None"
    by (simp add: split_last_def)
  with True show ?thesis
    by (simp add: split_host_port_no_bracket [OF assms(1)])
next
  case False
  have nb: "h @ CHR '':'' # pt = [] \<or> hd (h @ CHR '':'' # pt) \<noteq> CHR ''[''"
    using assms(1) by (cases h) auto
  from split_last_append [OF port_no_colon [OF assms(3)], of h] False show ?thesis
    by (simp add: split_host_port_no_bracket [OF nb])
qed

lemma parse_host_ipv6:
  assumes "valid_ipv6 hn"
  shows "parse_host ((CHR ''['' # hn) @ [CHR '']'']) = Inr (hn, 6)"
proof -
  have "butlast (tl ((CHR ''['' # hn) @ [CHR '']''])) = hn"
    by simp
  with assms show ?thesis
    unfolding parse_host_def by simp
qed

lemma encode_host_ipv4: "is_ipv4 hn \<Longrightarrow> encode host_allowed hn = hn"
proof (rule encode_id)
  assume "is_ipv4 hn"
  from is_ipv4_chars [OF this] show "list_all host_allowed hn"
    by (auto simp: list_all_iff host_allowed_def unreserved_def)
qed

lemma ipv4_no_bracket_colon:
  assumes "is_ipv4 hn"
  shows "hd hn \<noteq> CHR ''[''" and "CHR '':'' \<notin> set hn"
proof -
  have chars: "is_digit c \<or> c = CHR ''.''" if "c \<in> set hn" for c
    using is_ipv4_chars [OF assms] that by (simp add: list_all_iff)
  from is_ipv4_not_Nil [OF assms] have "hd hn \<in> set hn" by simp
  from chars [OF this] show "hd hn \<noteq> CHR ''[''"
    using digit_not_delim [of "hd hn"] by auto
  show "CHR '':'' \<notin> set hn"
  proof
    assume "CHR '':'' \<in> set hn"
    from chars [OF this] show False
      using digit_not_delim [of "CHR '':''"] by auto
  qed
qed

lemma parse_host_ipv4: "is_ipv4 hn \<Longrightarrow> parse_host hn = Inr (hn, 4)"
  using ipv4_no_bracket_colon(1) [of hn] by (simp add: parse_host_def)

text \<open>An encoded name that reads as a dotted quad holds no escape, so the name itself is a
  dotted quad.\<close>

lemma encoded_name_not_ipv4:
  assumes "\<not> is_ipv4 hn"
  shows "\<not> is_ipv4 (encode host_allowed hn)"
proof
  assume quad: "is_ipv4 (encode host_allowed hn)"
  have "CHR ''%'' \<notin> set (encode host_allowed hn)"
  proof
    assume "CHR ''%'' \<in> set (encode host_allowed hn)"
    with is_ipv4_chars [OF quad] have "is_digit (CHR ''%'') \<or> CHR ''%'' = CHR ''.''"
      unfolding list_all_iff by blast
    then show False
      by (simp add: is_digit_def)
  qed
  then have "encode host_allowed hn = hn"
    by (rule encode_without_percent)
  with quad assms show False by simp
qed

lemma parse_host_name:
  assumes "\<not> is_ipv4 hn"
  shows "parse_host (encode host_allowed hn) = Inr (hn, 0)"
proof -
  have "\<not> (encode host_allowed hn \<noteq> [] \<and> hd (encode host_allowed hn) = CHR ''['')"
    using encode_host_no_bracket [of hn] by blast
  then show ?thesis
    unfolding parse_host_def
    by (simp add: encoded_name_not_ipv4 [OF assms] decode_encode host_allowed_excludes)
qed

subsection \<open>What the parser guarantees\<close>

lemma parse_fields_I:
  assumes "split_scheme s = (sch, r1)"
    and "split_authority r1 = (ao, r2)"
    and "(case ao of None \<Rightarrow> Inr ([], [], - 1, []) | Some a \<Rightarrow> parse_authority a)
          = Inr (user, hn, ipv, pt)"
    and "decode (takeWhile (\<lambda>c. \<not> path_end c) r2) = Some pth"
    and "split_query (dropWhile (\<lambda>c. \<not> path_end c) r2) = (qo, r4)"
    and "(case qo of None \<Rightarrow> Some [] | Some q \<Rightarrow> parse_query q) = Some qry"
    and "decode (split_fragment r4) = Some frag"
  shows "parse_fields s = Inr \<lparr>f_scheme = sch, f_user = user, f_host = hn, f_ip_v = ipv,
     f_port = pt, f_path = pth, f_query = qry, f_fragment = frag\<rparr>"
  unfolding parse_fields_def Let_def assms fst_conv snd_conv by simp

lemma parse_fields_E:
  assumes "parse_fields s = Inr f"
  obtains user hn ipv pt pth where
    "(case fst (split_authority (snd (split_scheme s))) of
        None \<Rightarrow> Inr ([], [], - 1, [])
      | Some a \<Rightarrow> parse_authority a) = Inr (user, hn, ipv, pt)"
    and "decode (takeWhile (\<lambda>c. \<not> path_end c) (snd (split_authority (snd (split_scheme s)))))
        = Some pth"
    and "f_scheme f = fst (split_scheme s)" and "f_user f = user" and "f_host f = hn"
    and "f_ip_v f = ipv" and "f_port f = pt" and "f_path f = pth"
  using assms unfolding parse_fields_def Let_def
  by (auto split: sum.splits option.splits prod.splits)

lemma split_scheme_valid: "fst (split_scheme s) = [] \<or> is_scheme (fst (split_scheme s))"
  unfolding split_scheme_def by (simp split: list.splits)

lemma parse_host_kind:
  "parse_host h = Inr (hn, ipv) \<Longrightarrow>
   ipv = 0 \<or> ipv = 4 \<and> is_ipv4 hn \<or> ipv = 6 \<and> valid_ipv6 hn"
  unfolding parse_host_def by (auto split: if_splits option.splits)

lemma parse_authority_kind:
  assumes "parse_authority a = Inr (user, hn, ipv, pt)"
  shows "valid_port pt \<and> (ipv = 0 \<or> ipv = 4 \<and> is_ipv4 hn \<or> ipv = 6 \<and> valid_ipv6 hn)"
proof -
  obtain ui hp where split: "(case split_last (CHR ''@'') a of None \<Rightarrow> ([], a) | Some x \<Rightarrow> x) = (ui, hp)"
    by (cases "case split_last (CHR ''@'') a of None \<Rightarrow> ([], a) | Some x \<Rightarrow> x") auto
  from assms have "parse_host (fst (split_host_port hp)) = Inr (hn, ipv)"
    and "valid_port pt"
    unfolding parse_authority_def split
    by (auto split: option.splits sum.splits if_splits)
  with parse_host_kind show ?thesis by blast
qed

lemma after_authority:
  "split_authority r = (Some a, r2) \<Longrightarrow> r2 = [] \<or> authority_end (hd r2)"
proof -
  assume a: "split_authority r = (Some a, r2)"
  then obtain rest where "r2 = dropWhile (\<lambda>c. \<not> authority_end c) rest"
    unfolding split_authority_def by (auto split: list.splits if_splits)
  then show ?thesis
    using hd_dropWhile [of "\<lambda>c. \<not> authority_end c" rest] by blast
qed

lemma raw_path_absolute:
  assumes "r2 = [] \<or> authority_end (hd r2)"
  shows "takeWhile (\<lambda>c. \<not> path_end c) r2 = [] \<or> hd (takeWhile (\<lambda>c. \<not> path_end c) r2) = CHR ''/''"
  using assms by (cases r2) (auto simp: delim_defs)

lemma decode_absolute:
  "decode x = Some p \<Longrightarrow> x = [] \<or> hd x = CHR ''/'' \<Longrightarrow> p = [] \<or> hd p = CHR ''/''"
  by (cases x) (auto split: if_splits)

text \<open>Every field set that the parser returns satisfies the invariant.\<close>

lemma parse_fields_invariant:
  assumes "parse_fields s = Inr f"
  shows "parsed_invariant f"
proof -
  from assms obtain user hn ipv pt pth where
    auth: "(case fst (split_authority (snd (split_scheme s))) of
        None \<Rightarrow> Inr ([], [], - 1, [])
      | Some a \<Rightarrow> parse_authority a) = Inr (user, hn, ipv, pt)"
    and pth: "decode (takeWhile (\<lambda>c. \<not> path_end c) (snd (split_authority (snd (split_scheme s)))))
        = Some pth"
    and f: "f_scheme f = fst (split_scheme s)" "f_user f = user" "f_host f = hn"
      "f_ip_v f = ipv" "f_port f = pt" "f_path f = pth"
    by (rule parse_fields_E)
  have scheme: "f_scheme f = [] \<or> is_scheme (f_scheme f)"
    unfolding f by (rule split_scheme_valid)
  show ?thesis
  proof (cases "fst (split_authority (snd (split_scheme s)))")
    case None
    with auth have "user = []" "hn = []" "ipv = - 1" "pt = []"
      by simp_all
    with scheme f show ?thesis
      by (simp add: parsed_invariant_def valid_port_def)
  next
    case (Some a)
    with auth have "parse_authority a = Inr (user, hn, ipv, pt)"
      by simp
    from parse_authority_kind [OF this]
    have kind: "valid_port pt" "ipv = 0 \<or> ipv = 4 \<and> is_ipv4 hn \<or> ipv = 6 \<and> valid_ipv6 hn"
      by simp_all
    from Some have "split_authority (snd (split_scheme s))
        = (Some a, snd (split_authority (snd (split_scheme s))))"
      by (metis prod.collapse)
    from decode_absolute [OF pth raw_path_absolute [OF after_authority [OF this]]]
    have "pth = [] \<or> hd pth = CHR ''/''" .
    with scheme kind f show ?thesis
      unfolding parsed_invariant_def by simp
  qed
qed

subsection \<open>The built text, parsed again\<close>

lemma parse_authority_I:
  assumes "(case split_last (CHR ''@'') a of None \<Rightarrow> ([], a) | Some x \<Rightarrow> x) = (ui, hp)"
    and "decode ui = Some user"
    and "split_host_port hp = (h, pt)"
    and "parse_host h = Inr (hn, ipv)"
    and "valid_port pt"
  shows "parse_authority a = Inr (user, hn, ipv, pt)"
  unfolding parse_authority_def assms by (simp add: assms)

lemma host_port_built:
  assumes kind: "ipv = 0 \<and> CHR '':'' \<notin> set hn \<and> \<not> is_ipv4 hn \<or> ipv = 4 \<and> is_ipv4 hn
      \<or> ipv = 6 \<and> valid_ipv6 hn"
    and port: "valid_port pt"
  defines "H \<equiv> (if ipv = 6 then ''['' @ hn @ '']'' else encode host_allowed hn)"
  defines "hp \<equiv> H @ (if pt \<noteq> [] then '':'' @ pt else [])"
  shows "split_host_port hp = (H, pt)" and "parse_host H = Inr (hn, ipv)"
    and "CHR ''@'' \<notin> set hp" and "list_all (\<lambda>c. \<not> authority_end c) hp"
proof -
  have pt_chars: "CHR ''@'' \<notin> set pt" "list_all (\<lambda>c. \<not> authority_end c) pt"
    using digits_no_delims [OF valid_port_digits [OF port]] by simp_all
  from kind consider
    (name) "ipv = 0" "CHR '':'' \<notin> set hn" "\<not> is_ipv4 hn"
    | (v4) "ipv = 4" "is_ipv4 hn"
    | (v6) "ipv = 6" "valid_ipv6 hn"
    by blast
  then have "split_host_port hp = (H, pt) \<and> parse_host H = Inr (hn, ipv)
      \<and> CHR ''@'' \<notin> set H \<and> list_all (\<lambda>c. \<not> authority_end c) H"
  proof cases
    case name
    then have H: "H = encode host_allowed hn"
      by (simp add: H_def)
    from name(2) have "CHR '':'' \<notin> set (encode host_allowed hn)"
      using encode_host_colon by blast
    from split_host_port_plain [OF encode_host_no_bracket this port]
    have "split_host_port hp = (H, pt)"
      by (cases "pt = []") (simp_all add: hp_def H)
    with name H show ?thesis
      by (simp add: parse_host_name encode_host_chars)
  next
    case v4
    then have H: "H = hn"
      by (simp add: H_def encode_host_ipv4)
    from ipv4_no_bracket_colon [OF v4(2)] have "hn = [] \<or> hd hn \<noteq> CHR ''[''" "CHR '':'' \<notin> set hn"
      by simp_all
    from split_host_port_plain [OF this port]
    have "split_host_port hp = (H, pt)"
      by (cases "pt = []") (simp_all add: hp_def H)
    moreover have "CHR ''@'' \<notin> set hn \<and> list_all (\<lambda>c. \<not> authority_end c) hn"
      using encode_host_chars(1,2) [of hn] by (simp add: encode_host_ipv4 [OF v4(2)])
    ultimately show ?thesis
      using v4 H by (simp add: parse_host_ipv4)
  next
    case v6
    then have H: "H = (CHR ''['' # hn) @ [CHR '']'']"
      by (simp add: H_def)
    from split_host_port_ipv6 [OF v6(2) port]
    have "split_host_port hp = (H, pt)"
      by (cases "pt = []") (simp_all add: hp_def H)
    moreover have "CHR ''@'' \<notin> set H \<and> list_all (\<lambda>c. \<not> authority_end c) H"
      using hex_colon_no_delims [OF valid_ipv6_chars [OF v6(2)]] by (simp add: H authority_end_def)
    ultimately show ?thesis
      using v6 H parse_host_ipv6 [OF v6(2)] by simp
  qed
  then show "split_host_port hp = (H, pt)" and "parse_host H = Inr (hn, ipv)"
    and "CHR ''@'' \<notin> set hp" and "list_all (\<lambda>c. \<not> authority_end c) hp"
    using pt_chars by (simp_all add: hp_def authority_end_def)
qed

lemma parse_authority_built:
  fixes user :: string
  assumes kind: "ipv = 0 \<and> CHR '':'' \<notin> set hn \<and> \<not> is_ipv4 hn \<or> ipv = 4 \<and> is_ipv4 hn
      \<or> ipv = 6 \<and> valid_ipv6 hn"
    and port: "valid_port pt"
  defines "a \<equiv> (if user \<noteq> [] then encode user_allowed user @ ''@'' else [])
      @ (if ipv = 6 then ''['' @ hn @ '']'' else encode host_allowed hn)
      @ (if pt \<noteq> [] then '':'' @ pt else [])"
  shows "parse_authority a = Inr (user, hn, ipv, pt)" and "list_all (\<lambda>c. \<not> authority_end c) a"
proof -
  define H where "H = (if ipv = 6 then ''['' @ hn @ '']'' else encode host_allowed hn)"
  define hp where "hp = H @ (if pt \<noteq> [] then '':'' @ pt else [])"
  note hp = host_port_built [OF kind port, folded H_def, folded hp_def]
  have a: "a = (if user \<noteq> [] then encode user_allowed user @ ''@'' else []) @ hp"
    by (simp add: a_def hp_def H_def)
  have split: "(case split_last (CHR ''@'') a of None \<Rightarrow> ([], a) | Some x \<Rightarrow> x)
      = (encode user_allowed user, hp)"
  proof (cases "user = []")
    case True
    with hp(3) show ?thesis
      by (simp add: a split_last_def)
  next
    case False
    from split_last_append [OF hp(3), of "encode user_allowed user"] False show ?thesis
      by (simp add: a)
  qed
  from parse_authority_I [OF split _ hp(1) hp(2) port]
  show "parse_authority a = Inr (user, hn, ipv, pt)"
    by (simp add: decode_encode user_allowed_excludes)
  show "list_all (\<lambda>c. \<not> authority_end c) a"
    using hp(4) encode_user_chars(1) [of user] by (simp add: a authority_end_def)
qed

lemma parse_fields_built:
  assumes scheme: "split_scheme t = (sch, r1)"
    and authority: "split_authority r1 = (ao, encode path_allowed pth
        @ (if qry \<noteq> [] then ''?'' @ build_query qry else [])
        @ (if frag \<noteq> [] then ''#'' @ encode fragment_allowed frag else []))"
    and fields: "(case ao of None \<Rightarrow> Inr ([], [], - 1, []) | Some a \<Rightarrow> parse_authority a)
          = Inr (user, hn, ipv, pt)"
  shows "parse_fields t = Inr \<lparr>f_scheme = sch, f_user = user, f_host = hn, f_ip_v = ipv,
     f_port = pt, f_path = pth, f_query = qry, f_fragment = frag\<rparr>"
proof -
  define Fr where "Fr = (if frag \<noteq> [] then ''#'' @ encode fragment_allowed frag else [])"
  define QF where "QF = (if qry \<noteq> [] then ''?'' @ build_query qry else []) @ Fr"
  have qf: "QF = [] \<or> path_end (hd QF)"
    unfolding QF_def Fr_def by (rule query_fragment_start)
  have fr: "Fr = [] \<or> hd Fr = CHR ''#''"
    unfolding Fr_def by (rule fragment_start)
  have r2: "encode path_allowed pth
        @ (if qry \<noteq> [] then ''?'' @ build_query qry else [])
        @ (if frag \<noteq> [] then ''#'' @ encode fragment_allowed frag else [])
      = encode path_allowed pth @ QF"
    by (simp add: QF_def Fr_def)
  have p: "decode (takeWhile (\<lambda>c. \<not> path_end c) (encode path_allowed pth @ QF)) = Some pth"
    unfolding path_of_built(1) [OF qf] by (simp add: decode_encode path_allowed_excludes)
  have q: "split_query (dropWhile (\<lambda>c. \<not> path_end c) (encode path_allowed pth @ QF))
      = (if qry \<noteq> [] then Some (build_query qry) else None, Fr)"
    unfolding path_of_built(2) [OF qf] unfolding QF_def by (rule query_of_built [OF fr])
  have q': "(case (if qry \<noteq> [] then Some (build_query qry) else None) of
        None \<Rightarrow> Some [] | Some q \<Rightarrow> parse_query q) = Some qry"
    by (simp add: parse_query_build_query)
  have f: "decode (split_fragment Fr) = Some frag"
    unfolding Fr_def fragment_of_built by (simp add: decode_encode fragment_allowed_excludes)
  from parse_fields_I [OF scheme authority [unfolded r2] fields p q q' f] show ?thesis .
qed

subsection \<open>Round trip\<close>

lemma build_fields_ok:
  assumes "parsed_invariant f"
  shows "build_fields f = Inr (f_scheme f
     @ (if f_host f \<noteq> [] \<or> f_user f \<noteq> [] then ''://'' else if f_scheme f \<noteq> [] then '':'' else [])
     @ (if f_user f \<noteq> [] then encode user_allowed (f_user f) @ ''@'' else [])
     @ (if f_ip_v f = 6 then ''['' @ f_host f @ '']'' else encode host_allowed (f_host f))
     @ (if f_port f \<noteq> [] then '':'' @ f_port f else [])
     @ encode path_allowed (f_path f)
     @ (if f_query f \<noteq> [] then ''?'' @ build_query (f_query f) else [])
     @ (if f_fragment f \<noteq> [] then ''#'' @ encode fragment_allowed (f_fragment f) else []))"
proof -
  from assms have v6: "\<not> (f_ip_v f = 6 \<and> \<not> valid_ipv6 (f_host f))"
    and v4: "\<not> (f_ip_v f = 4 \<and> \<not> is_ipv4 (f_host f))"
    and port: "\<not> 65535 < dec_value (f_port f)"
    and path: "\<not> ((f_host f \<noteq> [] \<or> f_user f \<noteq> []) \<and> f_path f \<noteq> [] \<and> hd (f_path f) \<noteq> CHR ''/'')"
    unfolding parsed_invariant_def valid_port_def
    by (auto simp: dec_value_def)
  show ?thesis
    unfolding build_fields_def Let_def using v6 v4 port path by simp
qed

text \<open>For a field set as the parser returns them that is safe for the round trip, the
  builder succeeds and its text parses to the same field set.\<close>

lemma build_then_parse:
  assumes inv: "parsed_invariant f" and safe: "round_trip_safe f"
  shows "\<exists>t. build_fields f = Inr t \<and> parse_fields t = Inr f"
proof -
  define tail where "tail = encode path_allowed (f_path f)
     @ (if f_query f \<noteq> [] then ''?'' @ build_query (f_query f) else [])
     @ (if f_fragment f \<noteq> [] then ''#'' @ encode fragment_allowed (f_fragment f) else [])"
  define a where "a = (if f_user f \<noteq> [] then encode user_allowed (f_user f) @ ''@'' else [])
     @ (if f_ip_v f = 6 then ''['' @ f_host f @ '']'' else encode host_allowed (f_host f))
     @ (if f_port f \<noteq> [] then '':'' @ f_port f else [])"
  define t where "t = f_scheme f
     @ (if f_host f \<noteq> [] \<or> f_user f \<noteq> [] then ''://'' else if f_scheme f \<noteq> [] then '':'' else [])
     @ a @ tail"
  have built: "build_fields f = Inr t"
    unfolding build_fields_ok [OF inv] t_def a_def tail_def by simp
  have qf: "(if f_query f \<noteq> [] then ''?'' @ build_query (f_query f) else [])
       @ (if f_fragment f \<noteq> [] then ''#'' @ encode fragment_allowed (f_fragment f) else []) = []
     \<or> path_end (hd ((if f_query f \<noteq> [] then ''?'' @ build_query (f_query f) else [])
       @ (if f_fragment f \<noteq> [] then ''#'' @ encode fragment_allowed (f_fragment f) else [])))"
    by (rule query_fragment_start)
  have f: "f = \<lparr>f_scheme = f_scheme f, f_user = f_user f, f_host = f_host f, f_ip_v = f_ip_v f,
     f_port = f_port f, f_path = f_path f, f_query = f_query f, f_fragment = f_fragment f\<rparr>"
    by simp
  have "parse_fields t = Inr \<lparr>f_scheme = f_scheme f, f_user = f_user f, f_host = f_host f,
     f_ip_v = f_ip_v f, f_port = f_port f, f_path = f_path f, f_query = f_query f,
     f_fragment = f_fragment f\<rparr>"
  proof (cases "f_host f \<noteq> [] \<or> f_user f \<noteq> []")
    case True
    with safe have scheme: "f_scheme f \<noteq> []"
      and name: "f_ip_v f = 0 \<Longrightarrow> CHR '':'' \<notin> set (f_host f) \<and> \<not> is_ipv4 (f_host f)"
      unfolding round_trip_safe_def by (simp_all split: if_splits)
    with inv have valid: "is_scheme (f_scheme f)"
      unfolding parsed_invariant_def by simp
    from inv True have kind: "f_ip_v f = 0 \<or> f_ip_v f = 4 \<and> is_ipv4 (f_host f)
        \<or> f_ip_v f = 6 \<and> valid_ipv6 (f_host f)"
      and path: "f_path f = [] \<or> hd (f_path f) = CHR ''/''"
      and port: "valid_port (f_port f)"
      unfolding parsed_invariant_def by auto
    from kind name have kind': "f_ip_v f = 0 \<and> CHR '':'' \<notin> set (f_host f) \<and> \<not> is_ipv4 (f_host f)
        \<or> f_ip_v f = 4 \<and> is_ipv4 (f_host f) \<or> f_ip_v f = 6 \<and> valid_ipv6 (f_host f)"
      by blast
    note auth = parse_authority_built [OF kind' port, of "f_user f", folded a_def]
    have "t = f_scheme f @ CHR '':'' # (''//'' @ a @ tail)"
      using True by (simp add: t_def)
    with split_scheme_present [OF valid]
    have s1: "split_scheme t = (f_scheme f, ''//'' @ a @ tail)"
      by simp
    have "tail = [] \<or> authority_end (hd tail)"
      unfolding tail_def using encoded_absolute_path [OF path qf] by simp
    from split_authority_present [OF auth(2) this]
    have s2: "split_authority (''//'' @ a @ tail) = (Some a, tail)" .
    from parse_fields_built [OF s1 [unfolded tail_def] s2 [unfolded tail_def]] auth(1) show ?thesis
      by simp
  next
    case False
    then have empty: "f_host f = []" "f_user f = []"
      by simp_all
    with safe have none: "f_ip_v f = - 1" and slashes: "take 2 (f_path f) \<noteq> ''//''"
      and relative: "f_scheme f = [] \<Longrightarrow> fst (split_scheme (encode path_allowed (f_path f))) = []"
      unfolding round_trip_safe_def by (simp_all split: if_splits)
    from inv none have port: "f_port f = []"
      unfolding parsed_invariant_def by simp
    have a: "a = []"
      using empty none port by (simp add: a_def)
    have tail: "tail = encode path_allowed (f_path f)
       @ ((if f_query f \<noteq> [] then ''?'' @ build_query (f_query f) else [])
         @ (if f_fragment f \<noteq> [] then ''#'' @ encode fragment_allowed (f_fragment f) else []))"
      by (simp add: tail_def)
    have s1: "split_scheme t = (f_scheme f, tail)"
    proof (cases "f_scheme f = []")
      case True
      then have "t = tail"
        using empty a by (simp add: t_def)
      with split_scheme_absent [OF relative [OF True] encode_path_chars qf] True show ?thesis
        by (simp add: tail)
    next
      case False
      with inv have "is_scheme (f_scheme f)"
        unfolding parsed_invariant_def by simp
      from split_scheme_present [OF this, of tail] False empty a show ?thesis
        by (simp add: t_def)
    qed
    from encoded_path_no_double_slash [OF slashes qf]
    have "take 2 tail \<noteq> ''//''"
      by (simp add: tail)
    from split_authority_absent [OF this]
    have s2: "split_authority tail = (None, tail)" .
    from parse_fields_built [OF s1 [unfolded tail_def] s2 [unfolded tail_def], of "[]" "[]" "- 1" "[]"]
    show ?thesis
      using empty none port by simp
  qed
  with built f show ?thesis
    by metis
qed

subsection \<open>Concrete round trips\<close>

lemma parse_fields_full:
  "parse_fields ''http://user@example.com:8080/a%2Fb?a=1&b=&a=2#frag''
     = Inr \<lparr>f_scheme = ''http'', f_user = ''user'', f_host = ''example.com'', f_ip_v = 0,
         f_port = ''8080'', f_path = ''/a/b'',
         f_query = [KeyVal_kv ''a'' ''1'', KeyVal_kv ''b'' [], KeyVal_kv ''a'' ''2''],
         f_fragment = ''frag''\<rparr>"
  by (simp add: parser_eval)

lemma round_trip_safe_full:
  "round_trip_safe \<lparr>f_scheme = ''http'', f_user = ''user'', f_host = ''example.com'', f_ip_v = 0,
         f_port = ''8080'', f_path = ''/a/b'',
         f_query = [KeyVal_kv ''a'' ''1'', KeyVal_kv ''b'' [], KeyVal_kv ''a'' ''2''],
         f_fragment = ''frag''\<rparr>"
  by (simp add: round_trip_safe_def is_ipv4_def)

lemma parse_fields_escaped_slash:
  "parse_fields ''http:/%2Fa''
     = Inr \<lparr>f_scheme = ''http'', f_user = [], f_host = [], f_ip_v = - 1, f_port = [],
         f_path = ''//a'', f_query = [], f_fragment = []\<rparr>"
  by (simp add: parser_eval)

lemma build_fields_escaped_slash:
  "build_fields \<lparr>f_scheme = ''http'', f_user = [], f_host = [], f_ip_v = - 1, f_port = [],
         f_path = ''//a'', f_query = [], f_fragment = []\<rparr> = Inr ''http://a''"
  by (simp add: builder_eval is_alpha_def is_digit_def dec_value_def)

lemma parse_fields_host_a:
  "parse_fields ''http://a''
     = Inr \<lparr>f_scheme = ''http'', f_user = [], f_host = ''a'', f_ip_v = 0, f_port = [],
         f_path = [], f_query = [], f_fragment = []\<rparr>"
  by (simp add: parser_eval)

text \<open>Other valid texts whose parsed form does not survive: an escaped colon in the first
  segment of a relative path comes back as a scheme, and an escaped colon in a host name
  comes back as the start of a port.\<close>

lemma round_trip_escaped_colon_in_path:
  "parse_fields ''a%3Ab''
     = Inr \<lparr>f_scheme = [], f_user = [], f_host = [], f_ip_v = - 1, f_port = [],
         f_path = ''a:b'', f_query = [], f_fragment = []\<rparr>
   \<and> build_fields \<lparr>f_scheme = [], f_user = [], f_host = [], f_ip_v = - 1, f_port = [],
         f_path = ''a:b'', f_query = [], f_fragment = []\<rparr> = Inr ''a:b''
   \<and> parse_fields ''a:b''
     = Inr \<lparr>f_scheme = ''a'', f_user = [], f_host = [], f_ip_v = - 1, f_port = [],
         f_path = ''b'', f_query = [], f_fragment = []\<rparr>"
  by (simp add: parser_eval builder_eval)

lemma round_trip_escaped_colon_in_host:
  "parse_fields ''http://a%3Ab/''
     = Inr \<lparr>f_scheme = ''http'', f_user = [], f_host = ''a:b'', f_ip_v = 0, f_port = [],
         f_path = ''/'', f_query = [], f_fragment = []\<rparr>
   \<and> build_fields \<lparr>f_scheme = ''http'', f_user = [], f_host = ''a:b'', f_ip_v = 0, f_port = [],
         f_path = ''/'', f_query = [], f_fragment = []\<rparr> = Inr ''http://a:b/''
   \<and> parse_fields ''http://a:b/'' = Inl (parse_error ''port'')"
  by (simp add: parser_eval builder_eval)

lemma round_trip_empty_authority:
  "parse_fields ''file:///etc/passwd''
     = Inr \<lparr>f_scheme = ''file'', f_user = [], f_host = [], f_ip_v = 0, f_port = [],
         f_path = ''/etc/passwd'', f_query = [], f_fragment = []\<rparr>
   \<and> build_fields \<lparr>f_scheme = ''file'', f_user = [], f_host = [], f_ip_v = 0, f_port = [],
         f_path = ''/etc/passwd'', f_query = [], f_fragment = []\<rparr> = Inr ''file:/etc/passwd''
   \<and> parse_fields ''file:/etc/passwd''
     = Inr \<lparr>f_scheme = ''file'', f_user = [], f_host = [], f_ip_v = - 1, f_port = [],
         f_path = ''/etc/passwd'', f_query = [], f_fragment = []\<rparr>"
  by (simp add: parser_eval builder_eval)

lemma round_trip_no_scheme_authority:
  "parse_fields ''//h/p''
     = Inr \<lparr>f_scheme = [], f_user = [], f_host = ''h'', f_ip_v = 0, f_port = [],
         f_path = ''/p'', f_query = [], f_fragment = []\<rparr>
   \<and> build_fields \<lparr>f_scheme = [], f_user = [], f_host = ''h'', f_ip_v = 0, f_port = [],
         f_path = ''/p'', f_query = [], f_fragment = []\<rparr> = Inr ''://h/p''
   \<and> parse_fields ''://h/p''
     = Inr \<lparr>f_scheme = [], f_user = [], f_host = [], f_ip_v = - 1, f_port = [],
         f_path = ''://h/p'', f_query = [], f_fragment = []\<rparr>"
  by (simp add: parser_eval builder_eval)

text \<open>
  Claim C3, as amended. For every text \<open>U\<close> that parses, to the field set \<open>F\<close>, and whose
  \<open>F\<close> is safe for the round trip, the builder succeeds on \<open>F\<close> and its text parses to
  \<open>F\<close> again: parsing, serialising and parsing once more gives the field set of the first
  parse. Safe means: a URL with an authority has a scheme; an authority that is present
  has a host or user info; the path of a URL without authority does not start with
  \<^verbatim>\<open>//\<close>; a host name holds no colon and does not read as a dotted quad; and the encoded
  path of a URL without scheme does not start with a scheme and a colon.
\<close>

theorem round_trip_stable:
  assumes "parse_fields U = Inr F" and "round_trip_safe F"
  shows "\<exists>T. build_fields F = Inr T \<and> parse_fields T = parse_fields U"
  using build_then_parse [OF parse_fields_invariant [OF assms(1)] assms(2)] assms(1)
  by simp

theorem round_trip_stable_witness:
  "parse_fields ''http://user@example.com:8080/a%2Fb?a=1&b=&a=2#frag''
     = Inr \<lparr>f_scheme = ''http'', f_user = ''user'', f_host = ''example.com'', f_ip_v = 0,
         f_port = ''8080'', f_path = ''/a/b'',
         f_query = [KeyVal_kv ''a'' ''1'', KeyVal_kv ''b'' [], KeyVal_kv ''a'' ''2''],
         f_fragment = ''frag''\<rparr>
   \<and> round_trip_safe \<lparr>f_scheme = ''http'', f_user = ''user'', f_host = ''example.com'', f_ip_v = 0,
         f_port = ''8080'', f_path = ''/a/b'',
         f_query = [KeyVal_kv ''a'' ''1'', KeyVal_kv ''b'' [], KeyVal_kv ''a'' ''2''],
         f_fragment = ''frag''\<rparr>
   \<and> (\<exists>T. build_fields \<lparr>f_scheme = ''http'', f_user = ''user'', f_host = ''example.com'',
         f_ip_v = 0, f_port = ''8080'', f_path = ''/a/b'',
         f_query = [KeyVal_kv ''a'' ''1'', KeyVal_kv ''b'' [], KeyVal_kv ''a'' ''2''],
         f_fragment = ''frag''\<rparr> = Inr T
       \<and> parse_fields T = parse_fields ''http://user@example.com:8080/a%2Fb?a=1&b=&a=2#frag'')"
  using round_trip_stable [OF parse_fields_full round_trip_safe_full]
    parse_fields_full round_trip_safe_full
  by blast

text \<open>
  The claim C3 as stated fails. The text \<^verbatim>\<open>http:/%2Fa\<close> is a valid URL with the path
  \<^verbatim>\<open>//a\<close> and no authority; the builder leaves the slashes of a path unescaped and writes
  \<^verbatim>\<open>http://a\<close>, which parses to the host \<open>a\<close> and an empty path.
\<close>

theorem round_trip_counterexample:
  "parse_fields ''http:/%2Fa''
     = Inr \<lparr>f_scheme = ''http'', f_user = [], f_host = [], f_ip_v = - 1, f_port = [],
         f_path = ''//a'', f_query = [], f_fragment = []\<rparr>
   \<and> build_fields \<lparr>f_scheme = ''http'', f_user = [], f_host = [], f_ip_v = - 1, f_port = [],
         f_path = ''//a'', f_query = [], f_fragment = []\<rparr> = Inr ''http://a''
   \<and> parse_fields ''http://a''
     = Inr \<lparr>f_scheme = ''http'', f_user = [], f_host = ''a'', f_ip_v = 0, f_port = [],
         f_path = [], f_query = [], f_fragment = []\<rparr>
   \<and> parse_fields ''http://a'' \<noteq> parse_fields ''http:/%2Fa''"
  unfolding parse_fields_escaped_slash build_fields_escaped_slash parse_fields_host_a
  by simp

section \<open>Port validation in the parser and in the setter\<close>

subsection \<open>The port of an authority\<close>

text \<open>After a host text that does not open a bracket, the port is what follows the last
  colon.\<close>

lemma split_host_port_plain_any:
  assumes "h = [] \<or> hd h \<noteq> CHR ''[''" and "CHR '':'' \<notin> set p"
  shows "split_host_port (h @ CHR '':'' # p) = (h, p)"
proof -
  from assms(1) have "h @ CHR '':'' # p = [] \<or> hd (h @ CHR '':'' # p) \<noteq> CHR ''[''"
    by (cases h) auto
  from split_host_port_no_bracket [OF this] split_last_append [OF assms(2), of h]
  show ?thesis
    by simp
qed

text \<open>With a well-formed host and user info, the authority parses iff its port is valid,
  and the failure is the port failure.\<close>

lemma parse_authority_port_rule:
  assumes "parse_host h = Inr (hn, ipv)"
    and "h = [] \<or> hd h \<noteq> CHR ''[''"
    and "CHR ''@'' \<notin> set h" and "CHR ''@'' \<notin> set p" and "CHR '':'' \<notin> set p"
  shows "parse_authority (h @ CHR '':'' # p)
     = (if valid_port p then Inr ([], hn, ipv, p) else Inl (parse_error ''port''))"
proof -
  from assms(3,4) have "split_last (CHR ''@'') (h @ CHR '':'' # p) = None"
    by (simp add: split_last_def)
  then show ?thesis
    by (simp add: parse_authority_def split_host_port_plain_any [OF assms(2,5)] assms(1))
qed

lemma parse_authority_user_port_rule:
  assumes "decode ui = Some user" and "parse_host h = Inr (hn, ipv)"
    and "h = [] \<or> hd h \<noteq> CHR ''[''"
    and "CHR ''@'' \<notin> set h" and "CHR ''@'' \<notin> set p" and "CHR '':'' \<notin> set p"
  shows "parse_authority (ui @ CHR ''@'' # h @ CHR '':'' # p)
     = (if valid_port p then Inr (user, hn, ipv, p) else Inl (parse_error ''port''))"
proof -
  from assms(4,5) have "CHR ''@'' \<notin> set (h @ CHR '':'' # p)"
    by simp
  from split_last_append [OF this, of ui]
  show ?thesis
    by (simp add: parse_authority_def split_host_port_plain_any [OF assms(3,6)] assms(1,2))
qed

subsection \<open>The port of a URL\<close>

lemma parse_host_example: "parse_host ''example.com'' = Inr (''example.com'', 0)"
  by (simp add: parse_host_def is_ipv4_def)

lemma parse_fields_example_port:
  assumes "list_all (\<lambda>c. \<not> authority_end c) p" and "CHR ''@'' \<notin> set p" and "CHR '':'' \<notin> set p"
  shows "parse_fields (''http://example.com:'' @ p @ ''/'')
     = (if valid_port p
        then Inr \<lparr>f_scheme = ''http'', f_user = [], f_host = ''example.com'', f_ip_v = 0,
               f_port = p, f_path = ''/'', f_query = [], f_fragment = []\<rparr>
        else Inl (parse_error ''port''))"
proof -
  have s1: "split_scheme (''http://example.com:'' @ p @ ''/'')
      = (''http'', ''//'' @ (''example.com:'' @ p) @ ''/'')"
    by (simp add: split_scheme_def scheme_end_def is_scheme_def is_alpha_def)
  from assms(1) have "list_all (\<lambda>c. \<not> authority_end c) (''example.com:'' @ p)"
    by (simp add: authority_end_def)
  then have s2: "split_authority (''//'' @ (''example.com:'' @ p) @ ''/'')
      = (Some (''example.com:'' @ p), ''/'')"
    by (rule split_authority_present) (simp add: authority_end_def)
  have s3: "parse_authority (''example.com:'' @ p)
      = (if valid_port p then Inr ([], ''example.com'', 0, p) else Inl (parse_error ''port''))"
    using parse_authority_port_rule [OF parse_host_example _ _ assms(2,3)] by simp
  show ?thesis
    unfolding parse_fields_def s1 snd_conv fst_conv s2 Let_def
    by (simp add: s3 [unfolded append.simps] path_end_def split_query_def split_fragment_def)
qed

text \<open>Every port that the parser returns is valid.\<close>

lemma parse_fields_port_valid:
  "parse_fields s = Inr f \<Longrightarrow> valid_port (f_port f)"
  using parse_fields_invariant [of s f] by (simp add: parsed_invariant_def)

lemma parse_fields_example_iff:
  "parse_fields (''http://example.com:'' @ p @ ''/'')
     = Inr \<lparr>f_scheme = ''http'', f_user = [], f_host = ''example.com'', f_ip_v = 0,
            f_port = p, f_path = ''/'', f_query = [], f_fragment = []\<rparr>
   \<longleftrightarrow> valid_port p"
proof
  assume "parse_fields (''http://example.com:'' @ p @ ''/'')
     = Inr \<lparr>f_scheme = ''http'', f_user = [], f_host = ''example.com'', f_ip_v = 0,
            f_port = p, f_path = ''/'', f_query = [], f_fragment = []\<rparr>"
  from parse_fields_port_valid [OF this] show "valid_port p"
    by simp
next
  assume v: "valid_port p"
  note d = digits_no_delims [OF valid_port_digits [OF v]]
  from v show "parse_fields (''http://example.com:'' @ p @ ''/'')
     = Inr \<lparr>f_scheme = ''http'', f_user = [], f_host = ''example.com'', f_ip_v = 0,
            f_port = p, f_path = ''/'', f_query = [], f_fragment = []\<rparr>"
    unfolding parse_fields_example_port [OF d(3) d(1) d(2)] by simp
qed

subsection \<open>The port getter after an assignment\<close>

lemma port_after_assign:
  "fst (port (assign_string s w))
     = (case parse_fields s of Inl e \<Rightarrow> Inl e | Inr f \<Rightarrow> Inr (f_port f))"
  by (simp add: port_def after_parse_url_def parse_url_def assign_string_def parse_def
      store_fields_def split: sum.splits)

lemma port_example_iff:
  "fst (port (assign_string (''http://example.com:'' @ p @ ''/'') w)) = Inr p \<longleftrightarrow> valid_port p"
proof
  assume "fst (port (assign_string (''http://example.com:'' @ p @ ''/'') w)) = Inr p"
  then obtain f where "parse_fields (''http://example.com:'' @ p @ ''/'') = Inr f" "f_port f = p"
    unfolding port_after_assign by (auto split: sum.splits)
  with parse_fields_port_valid show "valid_port p"
    by blast
next
  assume "valid_port p"
  then have "parse_fields (''http://example.com:'' @ p @ ''/'')
     = Inr \<lparr>f_scheme = ''http'', f_user = [], f_host = ''example.com'', f_ip_v = 0,
            f_port = p, f_path = ''/'', f_query = [], f_fragment = []\<rparr>"
    by (simp only: parse_fields_example_iff)
  then show "fst (port (assign_string (''http://example.com:'' @ p @ ''/'') w)) = Inr p"
    unfolding port_after_assign by simp
qed

subsection \<open>A URL with the port 8080\<close>

lemma valid_port_8080: "valid_port ''8080''"
  by (simp add: valid_port_def is_digit_def dec_value_def)

lemma parse_fields_port_8080:
  "parse_fields ''http://example.com:8080/'' = Inr \<lparr>f_scheme = ''http'', f_user = [],
     f_host = ''example.com'', f_ip_v = 0, f_port = ''8080'', f_path = ''/'', f_query = [],
     f_fragment = []\<rparr>"
  using parse_fields_example_iff [of "''8080''"] valid_port_8080 by simp

lemma parse_url_port: "parse_url url_port = (Inr (), url_port_parsed)"
  by (simp add: parse_url_def url_port_def assign_string_def parse_def Url_default_def
      parse_fields_port_8080 store_fields_def url_port_parsed_def)

lemma build_fields_no_port:
  "build_fields \<lparr>f_scheme = ''http'', f_user = [], f_host = ''example.com'', f_ip_v = 0,
     f_port = [], f_path = ''/'', f_query = [], f_fragment = []\<rparr> = Inr ''http://example.com/''"
  by (simp add: build_fields_def dec_value_def encode_def encode_char_def
      host_allowed_def path_allowed_def unreserved_def is_alpha_def is_digit_def)

text \<open>A port that was parsed, then cleared: the getter returns the empty string and the
  serialised text has no port.\<close>

lemma port_cleared_8080:
  "fst (port (assign_string ''http://example.com:8080/'' w)) = Inr ''8080''
     \<and> fst (port (snd (port_str [] (assign_string ''http://example.com:8080/'' w)))) = Inr []
     \<and> fst (toString (snd (port_str [] (assign_string ''http://example.com:8080/'' w))))
        = Inr ''http://example.com/''"
  by (simp add: port_after_assign parse_fields_port_8080 port_str_def port_def
      after_parse_url_def parse_url_def assign_string_def parse_def store_fields_def
      valid_port_def toString_def toString_with_def build_url_def fields_of_def
      build_fields_no_port)

lemma port_after_clear:
  assumes "parse_url u = (Inr (), u')"
  shows "fst (port (snd (port_str [] u))) = Inr []"
  using assms parse_url_ok_parsed [OF assms]
  by (simp add: port_str_def after_parse_url_ok valid_port_def port_def after_parse_url_def
      parse_url_def)

text \<open>
  Claim C7. A port \<open>p\<close> is accepted iff it is empty or all decimal digits with a value of at
  most 65535, by the setter and by the parser alike.

  The setter: when the lazy parse succeeds, \<^verbatim>\<open>port(p)\<close> succeeds iff \<open>p\<close> is empty or is the
  decimal numeral, leading zeros allowed, of a number that is at most 65535; that is, iff
  \<open>p\<close> is empty or all digits with a value of at most 65535. Setting the port to \<^verbatim>\<open>70000\<close>
  fails and changes nothing. Setting the port to the empty string succeeds, stores the
  empty port and marks the raw string stale, and the getter then returns the empty string.

  The parser: every port that it returns is empty or all digits with a value of at most
  65535. For every text \<open>p\<close>, the URL \<^verbatim>\<open>http://example.com:p/\<close> parses to the fields with the
  port \<open>p\<close> iff \<open>p\<close> is such a port, and the getter \<^verbatim>\<open>port()\<close> after the assignment of this
  URL returns \<open>p\<close> iff it is; when \<open>p\<close> is not and holds none of \<^verbatim>\<open>/ ? # @ :\<close>, the parse, and
  so the getter, fails with the port error. For every host text \<open>h\<close> that the host
  classifier accepts and that opens no bracket, and every \<open>p\<close> without \<^verbatim>\<open>@\<close> and \<^verbatim>\<open>:\<close>, the
  authorities \<^verbatim>\<open>h:p\<close> and \<^verbatim>\<open>ui@h:p\<close> parse, with the port \<open>p\<close>, if \<open>p\<close> is such a port, and
  fail with the port error if not. An authority that ends in \<^verbatim>\<open>:70000\<close> does not parse,
  so that the first getter on \<^verbatim>\<open>http://example.com:70000/\<close> throws a parse error.

  Clearing a port that is there: after the assignment of \<^verbatim>\<open>http://example.com:8080/\<close> the
  getter returns \<^verbatim>\<open>8080\<close>; after \<^verbatim>\<open>port("")\<close> it returns the empty string, and the URL is
  serialised as \<^verbatim>\<open>http://example.com/\<close>.
\<close>

theorem port_validation:
  assumes "parse_url u = (Inr (), u')"
  shows "(fst (port_str p u) = Inr ()
            \<longleftrightarrow> p = [] \<or> (\<exists>n z. n \<le> 65535 \<and> p = replicate z (CHR ''0'') @ to_string n))
     \<and> (fst (port_str p u) = Inr ()
            \<longleftrightarrow> p = [] \<or> (list_all is_digit p \<and> dec_value p \<le> 65535))
     \<and> port_str ''70000'' u = (Inl (parse_error ''port''), u')
     \<and> isl (parse_authority (a @ '':70000''))
     \<and> parse_fields ''http://example.com:70000/'' = Inl (parse_error ''port'')
     \<and> fst (port (assign_string ''http://example.com:70000/'' w)) = Inl (parse_error ''port'')
     \<and> port_str [] u = (Inr (), u'\<lparr>m_port := [], m_built := False\<rparr>)
     \<and> (parse_fields s = Inr f
          \<longrightarrow> f_port f = [] \<or> (list_all is_digit (f_port f) \<and> dec_value (f_port f) \<le> 65535))
     \<and> (parse_fields (''http://example.com:'' @ p @ ''/'')
          = Inr \<lparr>f_scheme = ''http'', f_user = [], f_host = ''example.com'', f_ip_v = 0,
                 f_port = p, f_path = ''/'', f_query = [], f_fragment = []\<rparr>
            \<longleftrightarrow> p = [] \<or> (list_all is_digit p \<and> dec_value p \<le> 65535))
     \<and> (fst (port (assign_string (''http://example.com:'' @ p @ ''/'') w)) = Inr p
            \<longleftrightarrow> p = [] \<or> (\<exists>n z. n \<le> 65535 \<and> p = replicate z (CHR ''0'') @ to_string n))
     \<and> (list_all (\<lambda>c. \<not> authority_end c) p \<and> CHR ''@'' \<notin> set p \<and> CHR '':'' \<notin> set p
          \<and> \<not> (p = [] \<or> (list_all is_digit p \<and> dec_value p \<le> 65535))
          \<longrightarrow> parse_fields (''http://example.com:'' @ p @ ''/'') = Inl (parse_error ''port'')
            \<and> fst (port (assign_string (''http://example.com:'' @ p @ ''/'') w))
                = Inl (parse_error ''port''))
     \<and> (decode ui = Some user \<and> parse_host h = Inr (hn, ipv) \<and> (h = [] \<or> hd h \<noteq> CHR ''['')
          \<and> CHR ''@'' \<notin> set h \<and> CHR ''@'' \<notin> set p \<and> CHR '':'' \<notin> set p
          \<longrightarrow> parse_authority (h @ CHR '':'' # p)
                = (if p = [] \<or> (list_all is_digit p \<and> dec_value p \<le> 65535)
                   then Inr ([], hn, ipv, p) else Inl (parse_error ''port''))
            \<and> parse_authority (ui @ CHR ''@'' # h @ CHR '':'' # p)
                = (if p = [] \<or> (list_all is_digit p \<and> dec_value p \<le> 65535)
                   then Inr (user, hn, ipv, p) else Inl (parse_error ''port'')))
     \<and> fst (port (snd (port_str [] u))) = Inr []
     \<and> fst (port (assign_string ''http://example.com:8080/'' w)) = Inr ''8080''
     \<and> fst (port (snd (port_str [] (assign_string ''http://example.com:8080/'' w)))) = Inr []
     \<and> fst (toString (snd (port_str [] (assign_string ''http://example.com:8080/'' w))))
        = Inr ''http://example.com/''"
proof -
  have accepted: "fst (port_str p u) = Inr () \<longleftrightarrow> valid_port p"
    using assms by (simp add: port_str_def after_parse_url_ok)
  have getter: "fst (port (assign_string ''http://example.com:70000/'' w)) = Inl (parse_error ''port'')"
    by (simp add: port_def after_parse_url_def parse_url_def assign_string_def parse_def
        parse_fields_port_70000)
  have rejected: "port_str ''70000'' u = (Inl (parse_error ''port''), u')"
    using assms by (simp add: port_str_def after_parse_url_ok not_valid_port_70000)
  have cleared: "port_str [] u = (Inr (), u'\<lparr>m_port := [], m_built := False\<rparr>)"
    using assms by (simp add: port_str_def after_parse_url_ok valid_port_def)
  have setter: "(fst (port_str p u) = Inr ()
            \<longleftrightarrow> p = [] \<or> (\<exists>n z. n \<le> 65535 \<and> p = replicate z (CHR ''0'') @ to_string n))
     \<and> (fst (port_str p u) = Inr ()
            \<longleftrightarrow> p = [] \<or> (list_all is_digit p \<and> dec_value p \<le> 65535))
     \<and> port_str ''70000'' u = (Inl (parse_error ''port''), u')
     \<and> isl (parse_authority (a @ '':70000''))
     \<and> parse_fields ''http://example.com:70000/'' = Inl (parse_error ''port'')
     \<and> fst (port (assign_string ''http://example.com:70000/'' w)) = Inl (parse_error ''port'')
     \<and> port_str [] u = (Inr (), u'\<lparr>m_port := [], m_built := False\<rparr>)"
    unfolding accepted
    using valid_port_iff_numeral [of p] getter rejected cleared parse_authority_port_70000 [of a]
      parse_fields_port_70000
    by (simp add: valid_port_def)
  have sound: "parse_fields s = Inr f
      \<longrightarrow> f_port f = [] \<or> (list_all is_digit (f_port f) \<and> dec_value (f_port f) \<le> 65535)"
    using parse_fields_port_valid [of s f] by (simp add: valid_port_def)
  have url_iff: "parse_fields (''http://example.com:'' @ p @ ''/'')
          = Inr \<lparr>f_scheme = ''http'', f_user = [], f_host = ''example.com'', f_ip_v = 0,
                 f_port = p, f_path = ''/'', f_query = [], f_fragment = []\<rparr>
            \<longleftrightarrow> p = [] \<or> (list_all is_digit p \<and> dec_value p \<le> 65535)"
    unfolding parse_fields_example_iff by (simp add: valid_port_def)
  have getter_iff: "fst (port (assign_string (''http://example.com:'' @ p @ ''/'') w)) = Inr p
            \<longleftrightarrow> p = [] \<or> (\<exists>n z. n \<le> 65535 \<and> p = replicate z (CHR ''0'') @ to_string n)"
    unfolding port_example_iff by (rule valid_port_iff_numeral)
  have url_fail: "list_all (\<lambda>c. \<not> authority_end c) p \<and> CHR ''@'' \<notin> set p \<and> CHR '':'' \<notin> set p
          \<and> \<not> (p = [] \<or> (list_all is_digit p \<and> dec_value p \<le> 65535))
          \<longrightarrow> parse_fields (''http://example.com:'' @ p @ ''/'') = Inl (parse_error ''port'')
            \<and> fst (port (assign_string (''http://example.com:'' @ p @ ''/'') w))
                = Inl (parse_error ''port'')"
  proof (intro impI, elim conjE)
    assume c: "list_all (\<lambda>c. \<not> authority_end c) p" "CHR ''@'' \<notin> set p" "CHR '':'' \<notin> set p"
      and "\<not> (p = [] \<or> (list_all is_digit p \<and> dec_value p \<le> 65535))"
    then have "\<not> valid_port p"
      by (simp add: valid_port_def)
    then have "parse_fields (''http://example.com:'' @ p @ ''/'') = Inl (parse_error ''port'')"
      unfolding parse_fields_example_port [OF c] by simp
    then show "parse_fields (''http://example.com:'' @ p @ ''/'') = Inl (parse_error ''port'')
        \<and> fst (port (assign_string (''http://example.com:'' @ p @ ''/'') w))
            = Inl (parse_error ''port'')"
      unfolding port_after_assign by simp
  qed
  have authority: "decode ui = Some user \<and> parse_host h = Inr (hn, ipv)
          \<and> (h = [] \<or> hd h \<noteq> CHR ''['')
          \<and> CHR ''@'' \<notin> set h \<and> CHR ''@'' \<notin> set p \<and> CHR '':'' \<notin> set p
          \<longrightarrow> parse_authority (h @ CHR '':'' # p)
                = (if p = [] \<or> (list_all is_digit p \<and> dec_value p \<le> 65535)
                   then Inr ([], hn, ipv, p) else Inl (parse_error ''port''))
            \<and> parse_authority (ui @ CHR ''@'' # h @ CHR '':'' # p)
                = (if p = [] \<or> (list_all is_digit p \<and> dec_value p \<le> 65535)
                   then Inr (user, hn, ipv, p) else Inl (parse_error ''port''))"
    using parse_authority_port_rule [of h hn ipv p]
      parse_authority_user_port_rule [of ui user h hn ipv p]
    unfolding valid_port_def by blast
  from setter sound url_iff getter_iff url_fail authority port_after_clear [OF assms]
    port_cleared_8080 [of w]
  show ?thesis
    by blast
qed

theorem port_validation_witness:
  "parse_url url_port = (Inr (), url_port_parsed)
     \<and> m_port url_port_parsed = ''8080''
     \<and> fst (port_str ''443'' url_port) = Inr ()
     \<and> port_str ''70000'' url_port = (Inl (parse_error ''port''), url_port_parsed)
     \<and> port_str [] url_port = (Inr (), url_port_parsed\<lparr>m_port := [], m_built := False\<rparr>)
     \<and> fst (port (snd (port_str [] url_port))) = Inr []
     \<and> parse_fields ''http://example.com:65535/''
        = Inr \<lparr>f_scheme = ''http'', f_user = [], f_host = ''example.com'', f_ip_v = 0,
               f_port = ''65535'', f_path = ''/'', f_query = [], f_fragment = []\<rparr>
     \<and> parse_fields ''http://example.com:65536/'' = Inl (parse_error ''port'')
     \<and> parse_fields ''http://example.com:99999/'' = Inl (parse_error ''port'')
     \<and> parse_fields ''http://example.com:8a/'' = Inl (parse_error ''port'')
     \<and> parse_authority ''user@example.com:99999'' = Inl (parse_error ''port'')
     \<and> parse_authority ''user@example.com:443'' = Inr (''user'', ''example.com'', 0, ''443'')
     \<and> list_all is_digit (f_port \<lparr>f_scheme = ''http'', f_user = [], f_host = ''example.com'',
          f_ip_v = 0, f_port = ''8080'', f_path = ''/'', f_query = [], f_fragment = []\<rparr>)"
proof -
  have h: "parse_url url_port = (Inr (), url_port_parsed)"
    by (rule parse_url_port)
  have d443: "''443'' = [] \<or> (list_all is_digit ''443'' \<and> dec_value ''443'' \<le> 65535)"
    by (simp add: is_digit_def dec_value_def)
  from port_validation [OF h, of "''443''"] d443
  have a: "fst (port_str ''443'' url_port) = Inr ()"
    by blast
  from port_validation [OF h]
  have b: "port_str ''70000'' url_port = (Inl (parse_error ''port''), url_port_parsed)
      \<and> port_str [] url_port = (Inr (), url_port_parsed\<lparr>m_port := [], m_built := False\<rparr>)
      \<and> fst (port (snd (port_str [] url_port))) = Inr []"
    by blast
  have d65535: "''65535'' = [] \<or> (list_all is_digit ''65535'' \<and> dec_value ''65535'' \<le> 65535)"
    by (simp add: is_digit_def dec_value_def)
  from port_validation [OF h, of "''65535''"] d65535
  have "parse_fields (''http://example.com:'' @ ''65535'' @ ''/'')
        = Inr \<lparr>f_scheme = ''http'', f_user = [], f_host = ''example.com'', f_ip_v = 0,
               f_port = ''65535'', f_path = ''/'', f_query = [], f_fragment = []\<rparr>"
    by blast
  then have c: "parse_fields ''http://example.com:65535/''
        = Inr \<lparr>f_scheme = ''http'', f_user = [], f_host = ''example.com'', f_ip_v = 0,
               f_port = ''65535'', f_path = ''/'', f_query = [], f_fragment = []\<rparr>"
    by simp
  have n65536: "list_all (\<lambda>c. \<not> authority_end c) ''65536'' \<and> CHR ''@'' \<notin> set ''65536''
      \<and> CHR '':'' \<notin> set ''65536''
      \<and> \<not> (''65536'' = [] \<or> (list_all is_digit ''65536'' \<and> dec_value ''65536'' \<le> 65535))"
    by (simp add: authority_end_def is_digit_def dec_value_def)
  from port_validation [OF h, of "''65536''"] n65536
  have "parse_fields (''http://example.com:'' @ ''65536'' @ ''/'') = Inl (parse_error ''port'')"
    by blast
  then have d: "parse_fields ''http://example.com:65536/'' = Inl (parse_error ''port'')"
    by simp
  have n99999: "list_all (\<lambda>c. \<not> authority_end c) ''99999'' \<and> CHR ''@'' \<notin> set ''99999''
      \<and> CHR '':'' \<notin> set ''99999''
      \<and> \<not> (''99999'' = [] \<or> (list_all is_digit ''99999'' \<and> dec_value ''99999'' \<le> 65535))"
    by (simp add: authority_end_def is_digit_def dec_value_def)
  from port_validation [OF h, of "''99999''"] n99999
  have "parse_fields (''http://example.com:'' @ ''99999'' @ ''/'') = Inl (parse_error ''port'')"
    by blast
  then have e: "parse_fields ''http://example.com:99999/'' = Inl (parse_error ''port'')"
    by simp
  have n8a: "list_all (\<lambda>c. \<not> authority_end c) ''8a'' \<and> CHR ''@'' \<notin> set ''8a''
      \<and> CHR '':'' \<notin> set ''8a''
      \<and> \<not> (''8a'' = [] \<or> (list_all is_digit ''8a'' \<and> dec_value ''8a'' \<le> 65535))"
    by (simp add: authority_end_def is_digit_def dec_value_def)
  from port_validation [OF h, of "''8a''"] n8a
  have "parse_fields (''http://example.com:'' @ ''8a'' @ ''/'') = Inl (parse_error ''port'')"
    by blast
  then have f: "parse_fields ''http://example.com:8a/'' = Inl (parse_error ''port'')"
    by simp
  have pre: "decode ''user'' = Some ''user'' \<and> parse_host ''example.com'' = Inr (''example.com'', 0)
      \<and> (''example.com'' = [] \<or> hd ''example.com'' \<noteq> CHR ''['')
      \<and> CHR ''@'' \<notin> set ''example.com''"
    by (simp add: parse_host_example)
  have p99999: "CHR ''@'' \<notin> set ''99999'' \<and> CHR '':'' \<notin> set ''99999''
      \<and> \<not> (''99999'' = [] \<or> (list_all is_digit ''99999'' \<and> dec_value ''99999'' \<le> 65535))"
    using n99999 by blast
  from port_validation [OF h, of "''99999''" _ _ _ _ "''user''" "''user''" "''example.com''"
      "''example.com''" 0] pre p99999
  have "parse_authority (''user'' @ CHR ''@'' # ''example.com'' @ CHR '':'' # ''99999'')
      = Inl (parse_error ''port'')"
    by presburger
  then have g: "parse_authority ''user@example.com:99999'' = Inl (parse_error ''port'')"
    by simp
  have p443: "CHR ''@'' \<notin> set ''443'' \<and> CHR '':'' \<notin> set ''443''"
    by simp
  from port_validation [OF h, of "''443''" _ _ _ _ "''user''" "''user''" "''example.com''"
      "''example.com''" 0] pre p443 d443
  have "parse_authority (''user'' @ CHR ''@'' # ''example.com'' @ CHR '':'' # ''443'')
      = Inr (''user'', ''example.com'', 0, ''443'')"
    by presburger
  then have i: "parse_authority ''user@example.com:443'' = Inr (''user'', ''example.com'', 0, ''443'')"
    by simp
  have j0: "parse_fields ''http://example.com:8080/'' = Inr \<lparr>f_scheme = ''http'', f_user = [],
     f_host = ''example.com'', f_ip_v = 0, f_port = ''8080'', f_path = ''/'', f_query = [],
     f_fragment = []\<rparr>"
    by (rule parse_fields_port_8080)
  from port_validation [OF h, of _ _ _ "''http://example.com:8080/''"
      "\<lparr>f_scheme = ''http'', f_user = [],
     f_host = ''example.com'', f_ip_v = 0, f_port = ''8080'', f_path = ''/'', f_query = [],
     f_fragment = []\<rparr>"] j0
  have j: "list_all is_digit (f_port \<lparr>f_scheme = ''http'', f_user = [], f_host = ''example.com'',
          f_ip_v = 0, f_port = ''8080'', f_path = ''/'', f_query = [], f_fragment = []\<rparr>)"
    by auto
  have m: "m_port url_port_parsed = ''8080''"
    by (simp add: url_port_parsed_def)
  from h m a b c d e f g i j show ?thesis
    by blast
qed

end
